theory Spec2Isabelle
  imports Main "HOL-Library.Multiset"
begin

section \<open>Data model\<close>

text \<open>
  The records of \<^verbatim>\<open>lib/assignments.ts\<close>, \<^verbatim>\<open>lib/crypto.ts\<close> and \<^verbatim>\<open>lib/clues.ts\<close>.
  JavaScript strings are modelled as \<^typ>\<open>string\<close> (code units below 256), the
  integer-valued \<^verbatim>\<open>yearMoved\<close> as \<^typ>\<open>int\<close>. The field \<^verbatim>\<open>id\<close> is written
  \<open>id'\<close>, the fields \<^verbatim>\<open>type\<close> and \<^verbatim>\<open>data\<close> of a constraint \<open>ctype\<close> and \<open>cdata\<close>.
\<close>

record Participant =
  id' :: string
  gameId :: string
  name :: string
  email :: string
  gender :: string
  yearMoved :: int

record Assignment =
  giverId :: string
  receiverId :: string

record Exclusion =
  participant1 :: string
  participant2 :: string
  reason :: "string option"

datatype ConstraintType = no_same_gender | no_couples | custom

record AssignmentConstraint =
  ctype :: ConstraintType
  cdata :: "Exclusion option"

text \<open>
  Every \<^verbatim>\<open>throw new Error(...)\<close> of the three modules, one constructor per message,
  and the \<^verbatim>\<open>TypeError\<close> the engine raises on a value of the wrong shape.
\<close>

datatype error =
    InsufficientParticipants
  | NoValidReceiver string
  | CouldNotGenerate
  | InvalidAssignmentData
  | TypeError

section \<open>The runtime the modules call into\<close>

text \<open>
  \<^verbatim>\<open>crypto-js\<close>, \<^verbatim>\<open>process.env\<close> and floating-point number formatting are not code of
  the repository. They are parameters: \<open>AES_encrypt m k\<close> is
  \<^verbatim>\<open>CryptoJS.AES.encrypt(m, k).toString()\<close>, \<open>AES_decrypt t k\<close> is
  \<^verbatim>\<open>CryptoJS.AES.decrypt(t, k)\<close> (\<open>None\<close> when it throws), \<open>Utf8_stringify w\<close> is
  \<^verbatim>\<open>w.toString(CryptoJS.enc.Utf8)\<close> (\<open>None\<close> on malformed UTF-8), and
  \<open>format_average s n\<close> is the text of \<^verbatim>\<open>Math.round((s / n) * 10) / 10\<close>.
\<close>

record 'w runtime =
  NEXTAUTH_SECRET :: "string option"
  AES_encrypt :: "string \<Rightarrow> string \<Rightarrow> string"
  AES_decrypt :: "string \<Rightarrow> string \<Rightarrow> 'w option"
  Utf8_stringify :: "'w \<Rightarrow> string option"
  format_average :: "nat \<Rightarrow> nat \<Rightarrow> string"

text \<open>\<^verbatim>\<open>const ENCRYPTION_KEY = process.env.NEXTAUTH_SECRET || 'fallback-secret-key'\<close>\<close>

definition ENCRYPTION_KEY :: "'w runtime \<Rightarrow> string" where
  "ENCRYPTION_KEY rt =
     (case NEXTAUTH_SECRET rt of
        None \<Rightarrow> ''fallback-secret-key''
      | Some s \<Rightarrow> if s = [] then ''fallback-secret-key'' else s)"

text \<open>
  The library's contract: under one key, decrypting what was encrypted and reading the
  bytes as UTF-8 gives the message back.
\<close>

definition cipher_roundtrip :: "'w runtime \<Rightarrow> bool" where
  "cipher_roundtrip rt =
     (\<forall>m. \<exists>w. AES_decrypt rt (AES_encrypt rt m (ENCRYPTION_KEY rt)) (ENCRYPTION_KEY rt) = Some w
              \<and> Utf8_stringify rt w = Some m)"

text \<open>
  A stand-in for the library, to run the definitions on concrete inputs: the token is
  the key followed by the message.
\<close>

definition demo_runtime :: "string runtime" where
  "demo_runtime =
     \<lparr> NEXTAUTH_SECRET = None,
       AES_encrypt = (\<lambda>m k. k @ m),
       AES_decrypt = (\<lambda>t k. if take (length k) t = k then Some (drop (length k) t) else None),
       Utf8_stringify = Some,
       format_average = (\<lambda>s n. ''?'') \<rparr>"

text \<open>
  \<^verbatim>\<open>Math.random()\<close> is a supply of naturals \<open>rnd\<close> read at a cursor \<open>k\<close>:
  \<^verbatim>\<open>Math.floor(Math.random() * n)\<close> is \<open>rnd k mod n\<close>, which takes exactly the values
  \<open>0 .. n - 1\<close> the expression can take.
\<close>

definition random_below :: "(nat \<Rightarrow> nat) \<Rightarrow> nat \<Rightarrow> nat \<Rightarrow> nat" where
  "random_below rnd k n = rnd k mod n"

section \<open>JSON.stringify on an assignment list\<close>

definition hex_digit :: "nat \<Rightarrow> char" where
  "hex_digit n = ''0123456789abcdef'' ! n"

text \<open>QuoteJSONString of ECMA-262, on one code unit.\<close>

definition QuoteChar :: "char \<Rightarrow> string" where
  "QuoteChar c =
     (if c = CHR 0x08 then [CHR 0x5C, CHR ''b'']
      else if c = CHR 0x09 then [CHR 0x5C, CHR ''t'']
      else if c = CHR 0x0A then [CHR 0x5C, CHR ''n'']
      else if c = CHR 0x0C then [CHR 0x5C, CHR ''f'']
      else if c = CHR 0x0D then [CHR 0x5C, CHR ''r'']
      else if c = CHR 0x22 then [CHR 0x5C, CHR 0x22]
      else if c = CHR 0x5C then [CHR 0x5C, CHR 0x5C]
      else if (of_char c :: nat) < 0x20 then
        [CHR 0x5C, CHR ''u'', CHR ''0'', CHR ''0'',
         hex_digit (of_char c div 16), hex_digit (of_char c mod 16)]
      else [c])"

definition QuoteJSONString :: "string \<Rightarrow> string" where
  "QuoteJSONString s = CHR 0x22 # concat (map QuoteChar s) @ [CHR 0x22]"

definition SerializeAssignment :: "Assignment \<Rightarrow> string" where
  "SerializeAssignment a =
     ''{'' @ QuoteJSONString ''giverId'' @ '':'' @ QuoteJSONString (giverId a) @ '','' @
     QuoteJSONString ''receiverId'' @ '':'' @ QuoteJSONString (receiverId a) @ ''}''"

fun join_comma :: "string list \<Rightarrow> string" where
  "join_comma [] = []"
| "join_comma [x] = x"
| "join_comma (x # y # ys) = x @ '','' @ join_comma (y # ys)"

definition JSON_stringify :: "Assignment list \<Rightarrow> string" where
  "JSON_stringify as = ''['' @ join_comma (map SerializeAssignment as) @ '']''"

section \<open>JSON.parse\<close>

text \<open>
  The values \<^verbatim>\<open>JSON.parse\<close> builds. A number keeps its lexeme (its value as a double is
  never read by the modules); an object keeps its members in source order, duplicates
  included, and a property read takes the last one, as the parser's overwrite does.
\<close>

datatype json =
    JNull
  | JBool bool
  | JNumber string
  | JString string
  | JArray "json list"
  | JObject "(string \<times> json) list"

datatype token =
    TLBracket | TRBracket | TLBrace | TRBrace | TComma | TColon
  | TString string
  | TNumber string
  | TLiteral json

datatype num_state = NMinus | NZero | NInt | NDot | NFrac | NExp | NExpSign | NExpDigits

datatype lex_state =
    Idle
  | InString string
  | InEscape string
  | InUnicode string "nat list"
  | InNumber string num_state
  | InLiteral string json

definition char_code :: "char \<Rightarrow> nat" where
  "char_code c = of_char c"

definition is_digit :: "char \<Rightarrow> bool" where
  "is_digit c = (0x30 \<le> char_code c \<and> char_code c \<le> 0x39)"

definition hex_value :: "char \<Rightarrow> nat option" where
  "hex_value c =
     (if 0x30 \<le> char_code c \<and> char_code c \<le> 0x39 then Some (char_code c - 0x30)
      else if 0x61 \<le> char_code c \<and> char_code c \<le> 0x66 then Some (char_code c - 0x61 + 10)
      else if 0x41 \<le> char_code c \<and> char_code c \<le> 0x46 then Some (char_code c - 0x41 + 10)
      else None)"

text \<open>The number grammar \<^verbatim>\<open>-?(0|[1-9][0-9]*)(\.[0-9]+)?([eE][+-]?[0-9]+)?\<close> as an automaton.\<close>

fun num_step :: "num_state \<Rightarrow> char \<Rightarrow> num_state option" where
  "num_step NMinus c =
     (if c = CHR ''0'' then Some NZero else if is_digit c then Some NInt else None)"
| "num_step NZero c =
     (if c = CHR ''.'' then Some NDot
      else if c = CHR ''e'' \<or> c = CHR ''E'' then Some NExp else None)"
| "num_step NInt c =
     (if is_digit c then Some NInt
      else if c = CHR ''.'' then Some NDot
      else if c = CHR ''e'' \<or> c = CHR ''E'' then Some NExp else None)"
| "num_step NDot c = (if is_digit c then Some NFrac else None)"
| "num_step NFrac c =
     (if is_digit c then Some NFrac
      else if c = CHR ''e'' \<or> c = CHR ''E'' then Some NExp else None)"
| "num_step NExp c =
     (if c = CHR ''+'' \<or> c = CHR ''-'' then Some NExpSign
      else if is_digit c then Some NExpDigits else None)"
| "num_step NExpSign c = (if is_digit c then Some NExpDigits else None)"
| "num_step NExpDigits c = (if is_digit c then Some NExpDigits else None)"

fun num_accepting :: "num_state \<Rightarrow> bool" where
  "num_accepting NZero = True"
| "num_accepting NInt = True"
| "num_accepting NFrac = True"
| "num_accepting NExpDigits = True"
| "num_accepting _ = False"

definition idle_step :: "char \<Rightarrow> (lex_state \<times> token list) option" where
  "idle_step c =
     (if c = CHR '' '' \<or> c = CHR 0x09 \<or> c = CHR 0x0A \<or> c = CHR 0x0D then Some (Idle, [])
      else if c = CHR ''['' then Some (Idle, [TLBracket])
      else if c = CHR '']'' then Some (Idle, [TRBracket])
      else if c = CHR ''{'' then Some (Idle, [TLBrace])
      else if c = CHR ''}'' then Some (Idle, [TRBrace])
      else if c = CHR '','' then Some (Idle, [TComma])
      else if c = CHR '':'' then Some (Idle, [TColon])
      else if c = CHR 0x22 then Some (InString [], [])
      else if c = CHR ''-'' then Some (InNumber [c] NMinus, [])
      else if c = CHR ''0'' then Some (InNumber [c] NZero, [])
      else if is_digit c then Some (InNumber [c] NInt, [])
      else if c = CHR ''t'' then Some (InLiteral ''rue'' (JBool True), [])
      else if c = CHR ''f'' then Some (InLiteral ''alse'' (JBool False), [])
      else if c = CHR ''n'' then Some (InLiteral ''ull'' JNull, [])
      else None)"

text \<open>
  One character of the input. A \<^verbatim>\<open>\u\<close> escape naming a code unit above 255 has no
  image in \<^typ>\<open>string\<close>; the model stops there as on a syntax error.
\<close>

fun lex_step :: "lex_state \<Rightarrow> char \<Rightarrow> (lex_state \<times> token list) option" where
  "lex_step Idle c = idle_step c"
| "lex_step (InString acc) c =
     (if c = CHR 0x22 then Some (Idle, [TString acc])
      else if c = CHR 0x5C then Some (InEscape acc, [])
      else if char_code c < 0x20 then None
      else Some (InString (acc @ [c]), []))"
| "lex_step (InEscape acc) c =
     (if c = CHR 0x22 then Some (InString (acc @ [CHR 0x22]), [])
      else if c = CHR 0x5C then Some (InString (acc @ [CHR 0x5C]), [])
      else if c = CHR ''/'' then Some (InString (acc @ [CHR ''/'']), [])
      else if c = CHR ''b'' then Some (InString (acc @ [CHR 0x08]), [])
      else if c = CHR ''f'' then Some (InString (acc @ [CHR 0x0C]), [])
      else if c = CHR ''n'' then Some (InString (acc @ [CHR 0x0A]), [])
      else if c = CHR ''r'' then Some (InString (acc @ [CHR 0x0D]), [])
      else if c = CHR ''t'' then Some (InString (acc @ [CHR 0x09]), [])
      else if c = CHR ''u'' then Some (InUnicode acc [], [])
      else None)"
| "lex_step (InUnicode acc ds) c =
     (case hex_value c of
        None \<Rightarrow> None
      | Some d \<Rightarrow>
          (if length ds < 3 then Some (InUnicode acc (ds @ [d]), [])
           else (let n = foldl (\<lambda>v x. 16 * v + x) 0 (ds @ [d])
                 in if n < 256 then Some (InString (acc @ [char_of n]), []) else None)))"
| "lex_step (InNumber lexeme ns) c =
     (case num_step ns c of
        Some ns' \<Rightarrow> Some (InNumber (lexeme @ [c]) ns', [])
      | None \<Rightarrow>
          (if num_accepting ns then
             (case idle_step c of
                None \<Rightarrow> None
              | Some (st, ts) \<Rightarrow> Some (st, TNumber lexeme # ts))
           else None))"
| "lex_step (InLiteral [] v) c = None"
| "lex_step (InLiteral (x # xs) v) c =
     (if c = x then (if xs = [] then Some (Idle, [TLiteral v]) else Some (InLiteral xs v, []))
      else None)"

fun lex_finish :: "lex_state \<Rightarrow> token list option" where
  "lex_finish Idle = Some []"
| "lex_finish (InNumber lexeme ns) = (if num_accepting ns then Some [TNumber lexeme] else None)"
| "lex_finish _ = None"

fun lex :: "lex_state \<Rightarrow> string \<Rightarrow> token list option" where
  "lex st [] = lex_finish st"
| "lex st (c # cs) =
     (case lex_step st c of
        None \<Rightarrow> None
      | Some (st', out) \<Rightarrow>
          (case lex st' cs of None \<Rightarrow> None | Some ts \<Rightarrow> Some (out @ ts)))"

text \<open>The grammar of values over the tokens, with the open arrays and objects on a stack.\<close>

datatype frame =
    ArrayFrame "json list"
  | ObjectFrame "(string \<times> json) list" "string option"

datatype expect = Value | ValueOrEnd | KeyOrEnd | Key | Colon | CommaOrEnd | Finished json

fun deliver :: "json \<Rightarrow> frame list \<Rightarrow> (expect \<times> frame list) option" where
  "deliver v [] = Some (Finished v, [])"
| "deliver v (ArrayFrame xs # st) = Some (CommaOrEnd, ArrayFrame (xs @ [v]) # st)"
| "deliver v (ObjectFrame kvs (Some k) # st) = Some (CommaOrEnd, ObjectFrame (kvs @ [(k, v)]) None # st)"
| "deliver v (ObjectFrame kvs None # st) = None"

fun start_value :: "token \<Rightarrow> frame list \<Rightarrow> (expect \<times> frame list) option" where
  "start_value (TString s) st = deliver (JString s) st"
| "start_value (TNumber n) st = deliver (JNumber n) st"
| "start_value (TLiteral v) st = deliver v st"
| "start_value TLBracket st = Some (ValueOrEnd, ArrayFrame [] # st)"
| "start_value TLBrace st = Some (KeyOrEnd, ObjectFrame [] None # st)"
| "start_value _ st = None"

fun close_array :: "frame list \<Rightarrow> (expect \<times> frame list) option" where
  "close_array (ArrayFrame xs # st) = deliver (JArray xs) st"
| "close_array _ = None"

fun close_object :: "frame list \<Rightarrow> (expect \<times> frame list) option" where
  "close_object (ObjectFrame kvs None # st) = deliver (JObject kvs) st"
| "close_object _ = None"

fun take_key :: "token \<Rightarrow> frame list \<Rightarrow> (expect \<times> frame list) option" where
  "take_key (TString s) (ObjectFrame kvs None # st) = Some (Colon, ObjectFrame kvs (Some s) # st)"
| "take_key _ _ = None"

fun parse_step :: "expect \<Rightarrow> frame list \<Rightarrow> token \<Rightarrow> (expect \<times> frame list) option" where
  "parse_step Value st t = start_value t st"
| "parse_step ValueOrEnd st t = (if t = TRBracket then close_array st else start_value t st)"
| "parse_step KeyOrEnd st t = (if t = TRBrace then close_object st else take_key t st)"
| "parse_step Key st t = take_key t st"
| "parse_step Colon st t = (if t = TColon then Some (Value, st) else None)"
| "parse_step CommaOrEnd st t =
     (if t = TComma then
        (case st of
           ArrayFrame xs # st' \<Rightarrow> Some (Value, st)
         | ObjectFrame kvs None # st' \<Rightarrow> Some (Key, st)
         | _ \<Rightarrow> None)
      else if t = TRBracket then close_array st
      else if t = TRBrace then close_object st
      else None)"
| "parse_step (Finished v) st t = None"

fun parse_tokens :: "expect \<Rightarrow> frame list \<Rightarrow> token list \<Rightarrow> json option" where
  "parse_tokens e st [] = (case (e, st) of (Finished v, []) \<Rightarrow> Some v | _ \<Rightarrow> None)"
| "parse_tokens e st (t # ts) =
     (case parse_step e st t of
        None \<Rightarrow> None
      | Some (e', st') \<Rightarrow> parse_tokens e' st' ts)"

text \<open>\<^verbatim>\<open>JSON.parse(text)\<close>; \<open>None\<close> is its \<^verbatim>\<open>SyntaxError\<close>.\<close>

definition JSON_parse :: "string \<Rightarrow> json option" where
  "JSON_parse s = (case lex Idle s of None \<Rightarrow> None | Some ts \<Rightarrow> parse_tokens Value [] ts)"

text \<open>The value an assignment list is at run time, and the typed reading of a value.\<close>

definition js_of_assignment :: "Assignment \<Rightarrow> json" where
  "js_of_assignment a =
     JObject [(''giverId'', JString (giverId a)), (''receiverId'', JString (receiverId a))]"

definition js_of_assignments :: "Assignment list \<Rightarrow> json" where
  "js_of_assignments as = JArray (map js_of_assignment as)"

section \<open>The encoder (lib/crypto.ts)\<close>

text \<open>\<^verbatim>\<open>encryptAssignments\<close> of \<^verbatim>\<open>lib/crypto.ts\<close>.\<close>

definition encryptAssignments :: "'w runtime \<Rightarrow> Assignment list \<Rightarrow> string" where
  "encryptAssignments rt assignments =
     (let assignmentData = JSON_stringify assignments;
          encrypted = AES_encrypt rt assignmentData (ENCRYPTION_KEY rt)
      in encrypted)"

text \<open>
  \<^verbatim>\<open>decryptAssignments\<close>: whatever the try block throws becomes
  \<^verbatim>\<open>Error('Invalid assignment data')\<close>; the parsed value is returned as it is.
\<close>

definition decryptAssignments :: "'w runtime \<Rightarrow> string \<Rightarrow> error + json" where
  "decryptAssignments rt encryptedData =
     (case AES_decrypt rt encryptedData (ENCRYPTION_KEY rt) of
        None \<Rightarrow> Inl InvalidAssignmentData
      | Some bytes \<Rightarrow>
          (case Utf8_stringify rt bytes of
             None \<Rightarrow> Inl InvalidAssignmentData
           | Some decryptedData \<Rightarrow>
               (case JSON_parse decryptedData of
                  None \<Rightarrow> Inl InvalidAssignmentData
                | Some v \<Rightarrow> Inr v)))"

text \<open>
  What \<^verbatim>\<open>getAssignmentForParticipant\<close> does to a parsed value of any shape. A read of
  \<^verbatim>\<open>giverId\<close> or \<^verbatim>\<open>receiverId\<close> throws on \<^verbatim>\<open>null\<close>, finds the member of an object, and
  is \<^verbatim>\<open>undefined\<close> on every other value; \<^verbatim>\<open>.find\<close> exists on arrays only.
\<close>

datatype jsvalue = Undefined | Val json

fun get_field :: "json \<Rightarrow> string \<Rightarrow> error + jsvalue" where
  "get_field JNull key = Inl TypeError"
| "get_field (JObject kvs) key =
     (case map_of (rev kvs) key of None \<Rightarrow> Inr Undefined | Some v \<Rightarrow> Inr (Val v))"
| "get_field _ key = Inr Undefined"

fun find_giver :: "json list \<Rightarrow> string \<Rightarrow> error + json option" where
  "find_giver [] participantId = Inr None"
| "find_giver (a # as) participantId =
     (case get_field a ''giverId'' of
        Inl e \<Rightarrow> Inl e
      | Inr g \<Rightarrow> if g = Val (JString participantId) then Inr (Some a) else find_giver as participantId)"

fun js_find :: "json \<Rightarrow> string \<Rightarrow> error + json option" where
  "js_find (JArray as) participantId = find_giver as participantId"
| "js_find _ participantId = Inl TypeError"

definition try_catch :: "error + 'a \<Rightarrow> (error \<Rightarrow> error + 'a) \<Rightarrow> error + 'a" where
  "try_catch body handler = (case body of Inl e \<Rightarrow> handler e | Inr v \<Rightarrow> Inr v)"

definition getAssignmentForParticipant :: "'w runtime \<Rightarrow> string \<Rightarrow> string \<Rightarrow> error + jsvalue" where
  "getAssignmentForParticipant rt encryptedData participantId =
     try_catch
       (case decryptAssignments rt encryptedData of
          Inl e \<Rightarrow> Inl e
        | Inr assignments \<Rightarrow>
            (case js_find assignments participantId of
               Inl e \<Rightarrow> Inl e
             | Inr None \<Rightarrow> Inr (Val JNull)
             | Inr (Some assignment) \<Rightarrow> get_field assignment ''receiverId''))
       (\<lambda>e. Inr (Val JNull))"

section \<open>The assignment engine (lib/assignments.ts)\<close>

text \<open>\<^verbatim>\<open>isValidAssignment\<close>: the loop over the constraints, with its \<^verbatim>\<open>switch\<close>.\<close>

fun check_constraints :: "Participant \<Rightarrow> Participant \<Rightarrow> AssignmentConstraint list \<Rightarrow> bool" where
  "check_constraints giver receiver [] = True"
| "check_constraints giver receiver (c # cs) =
     (case ctype c of
        no_same_gender \<Rightarrow>
          if gender giver = gender receiver then False
          else check_constraints giver receiver cs
      | no_couples \<Rightarrow>
          (case cdata c of
             Some d \<Rightarrow>
               if (name giver = participant1 d \<and> name receiver = participant2 d) \<or>
                  (name giver = participant2 d \<and> name receiver = participant1 d)
               then False
               else check_constraints giver receiver cs
           | None \<Rightarrow> check_constraints giver receiver cs)
      | custom \<Rightarrow> check_constraints giver receiver cs)"

definition isValidAssignment ::
  "Participant \<Rightarrow> Participant \<Rightarrow> Assignment list \<Rightarrow> AssignmentConstraint list \<Rightarrow> bool" where
  "isValidAssignment giver receiver existingAssignments constraints =
     (if id' giver = id' receiver then False
      else check_constraints giver receiver constraints)"

text \<open>
  The Fisher-Yates loop \<^verbatim>\<open>for (let i = receivers.length - 1; i > 0; i--)\<close>; the result
  carries the cursor of the random supply after the loop.
\<close>

fun shuffle_from :: "(nat \<Rightarrow> nat) \<Rightarrow> nat \<Rightarrow> nat \<Rightarrow> 'a list \<Rightarrow> 'a list \<times> nat" where
  "shuffle_from rnd k 0 receivers = (receivers, k)"
| "shuffle_from rnd k (Suc i) receivers =
     (let j = random_below rnd k (Suc i + 1)
      in shuffle_from rnd (k + 1) i (receivers[Suc i := receivers ! j, j := receivers ! Suc i]))"

definition shuffle :: "(nat \<Rightarrow> nat) \<Rightarrow> nat \<Rightarrow> 'a list \<Rightarrow> 'a list \<times> nat" where
  "shuffle rnd k receivers = shuffle_from rnd k (length receivers - 1) receivers"

text \<open>
  The inner loop of \<^verbatim>\<open>attemptAssignment\<close>: the first receiver of the pool that is valid
  for the giver, and the pool after \<^verbatim>\<open>receivers.splice(i, 1)\<close>.
\<close>

fun find_receiver ::
  "Participant \<Rightarrow> Assignment list \<Rightarrow> AssignmentConstraint list \<Rightarrow> Participant list
   \<Rightarrow> (Participant \<times> Participant list) option" where
  "find_receiver giver assignments constraints [] = None"
| "find_receiver giver assignments constraints (receiver # receivers) =
     (if isValidAssignment giver receiver assignments constraints
      then Some (receiver, receivers)
      else (case find_receiver giver assignments constraints receivers of
              None \<Rightarrow> None
            | Some (v, rest) \<Rightarrow> Some (v, receiver # rest)))"

text \<open>The outer loop \<^verbatim>\<open>for (const giver of givers)\<close>.\<close>

fun assign_givers ::
  "AssignmentConstraint list \<Rightarrow> Participant list \<Rightarrow> Participant list \<Rightarrow> Assignment list
   \<Rightarrow> error + Assignment list" where
  "assign_givers constraints [] receivers assignments = Inr assignments"
| "assign_givers constraints (giver # givers) receivers assignments =
     (case find_receiver giver assignments constraints receivers of
        None \<Rightarrow> Inl (NoValidReceiver (name giver))
      | Some (validReceiver, receivers') \<Rightarrow>
          assign_givers constraints givers receivers'
            (assignments @ [\<lparr> giverId = id' giver, receiverId = id' validReceiver \<rparr>]))"

definition attemptAssignment ::
  "(nat \<Rightarrow> nat) \<Rightarrow> nat \<Rightarrow> Participant list \<Rightarrow> AssignmentConstraint list
   \<Rightarrow> (error + Assignment list) \<times> nat" where
  "attemptAssignment rnd k participants constraints =
     (let givers = participants;
          (receivers, k') = shuffle rnd k participants
      in (assign_givers constraints givers receivers [], k'))"

definition maxAttempts :: nat where
  "maxAttempts = 100"

text \<open>
  The \<^verbatim>\<open>while (attempts < maxAttempts)\<close> loop of \<^verbatim>\<open>generateAssignments\<close>: a try that
  returns the token, and a catch that counts the attempt and, at the bound, runs the
  fallback attempt with no constraints outside any try.
\<close>

function generate_loop ::
  "'w runtime \<Rightarrow> (nat \<Rightarrow> nat) \<Rightarrow> Participant list \<Rightarrow> AssignmentConstraint list \<Rightarrow> nat \<Rightarrow> nat
   \<Rightarrow> error + string" where
  "generate_loop rt rnd participants constraints k attempts =
     (if attempts < maxAttempts then
        (case attemptAssignment rnd k participants constraints of
           (Inr assignments, k') \<Rightarrow> Inr (encryptAssignments rt assignments)
         | (Inl e, k') \<Rightarrow>
             (if attempts + 1 \<ge> maxAttempts then
                (case attemptAssignment rnd k' participants [] of
                   (Inr assignments, k'') \<Rightarrow> Inr (encryptAssignments rt assignments)
                 | (Inl e', k'') \<Rightarrow> Inl e')
              else generate_loop rt rnd participants constraints k' (attempts + 1)))
      else Inl CouldNotGenerate)"
  by pat_completeness auto
termination
  by (relation "measure (\<lambda>(rt, rnd, participants, constraints, k, attempts). maxAttempts - attempts)")
     auto

declare generate_loop.simps [simp del]

definition generateAssignments ::
  "'w runtime \<Rightarrow> (nat \<Rightarrow> nat) \<Rightarrow> Participant list \<Rightarrow> AssignmentConstraint list \<Rightarrow> error + string" where
  "generateAssignments rt rnd participants constraints =
     (if length participants < 2 then Inl InsufficientParticipants
      else generate_loop rt rnd participants constraints 0 0)"

text \<open>
  \<^verbatim>\<open>validateAssignments\<close>: \<^verbatim>\<open>new Set(xs).size\<close> is the number of distinct elements,
  \<^verbatim>\<open>[...s].every(id => t.has(id))\<close> a membership test for every element.
\<close>

definition validateAssignments :: "Assignment list \<Rightarrow> Participant list \<Rightarrow> bool" where
  "validateAssignments assignments participants =
     (let givers = remdups (map giverId assignments);
          receivers = remdups (map receiverId assignments);
          participantIds = remdups (map id' participants)
      in length givers = length participants \<and>
         length receivers = length participants \<and>
         list_all (\<lambda>i. i \<in> set participantIds) givers \<and>
         list_all (\<lambda>i. i \<in> set participantIds) receivers)"

section \<open>JavaScript library functions the clue engine uses\<close>

text \<open>\<^verbatim>\<open>String.prototype.toLowerCase\<close> on code units below 256.\<close>

definition toLowerChar :: "char \<Rightarrow> char" where
  "toLowerChar c =
     (let n = char_code c
      in if (0x41 \<le> n \<and> n \<le> 0x5A) \<or> (0xC0 \<le> n \<and> n \<le> 0xDE \<and> n \<noteq> 0xD7)
         then char_of (n + 0x20) else c)"

definition toLowerCase :: "string \<Rightarrow> string" where
  "toLowerCase s = map toLowerChar s"

fun startsWith :: "string \<Rightarrow> string \<Rightarrow> bool" where
  "startsWith s [] = True"
| "startsWith [] (p # ps) = False"
| "startsWith (c # cs) (p # ps) = (c = p \<and> startsWith cs ps)"

text \<open>\<^verbatim>\<open>s.includes(p)\<close>\<close>

fun includes' :: "string \<Rightarrow> string \<Rightarrow> bool" where
  "includes' [] p = (p = [])"
| "includes' (c # cs) p = (startsWith (c # cs) p \<or> includes' cs p)"

text \<open>The relational \<^verbatim>\<open><\<close> on two strings: code units, lexicographically.\<close>

fun string_less :: "string \<Rightarrow> string \<Rightarrow> bool" where
  "string_less [] [] = False"
| "string_less [] (y # ys) = True"
| "string_less (x # xs) [] = False"
| "string_less (x # xs) (y # ys) = (char_code x < char_code y \<or> (x = y \<and> string_less xs ys))"

text \<open>A natural number and an integer in a template literal.\<close>

function show_nat :: "nat \<Rightarrow> string" where
  "show_nat n =
     (if n < 10 then [char_of (0x30 + n)]
      else show_nat (n div 10) @ [char_of (0x30 + n mod 10)])"
  by pat_completeness auto
termination
  by (relation "measure (\<lambda>n. n)") auto

declare show_nat.simps [simp del]

definition show_int :: "int \<Rightarrow> string" where
  "show_int i = (if i < 0 then ''-'' @ show_nat (nat (- i)) else show_nat (nat i))"

text \<open>
  A \<^verbatim>\<open>Map\<close> as an association list in insertion order: \<^verbatim>\<open>set\<close> on a key that is
  present replaces the value where the key stands. A \<^verbatim>\<open>Set\<close> built from an array keeps
  the first occurrence of each element.
\<close>

fun Map_set :: "('k \<times> 'v) list \<Rightarrow> 'k \<Rightarrow> 'v \<Rightarrow> ('k \<times> 'v) list" where
  "Map_set [] k v = [(k, v)]"
| "Map_set ((k', v') # m) k v = (if k' = k then (k, v) # m else (k', v') # Map_set m k v)"

definition new_Map :: "('k \<times> 'v) list \<Rightarrow> ('k \<times> 'v) list" where
  "new_Map entries = foldl (\<lambda>m (k, v). Map_set m k v) [] entries"

definition Map_get :: "('k \<times> 'v) list \<Rightarrow> 'k \<Rightarrow> 'v option" where
  "Map_get m k = map_of m k"

definition Map_values :: "('k \<times> 'v) list \<Rightarrow> 'v list" where
  "Map_values m = map snd m"

definition Set_values :: "'a list \<Rightarrow> 'a list" where
  "Set_values xs = rev (remdups (rev xs))"

text \<open>\<^verbatim>\<open>Math.min(...xs)\<close> and \<^verbatim>\<open>Math.max(...xs)\<close>; \<open>None\<close> is the infinity of the empty call.\<close>

fun Math_min :: "('a::linorder) list \<Rightarrow> 'a option" where
  "Math_min [] = None"
| "Math_min (x # xs) = Some (fold min xs x)"

fun Math_max :: "('a::linorder) list \<Rightarrow> 'a option" where
  "Math_max [] = None"
| "Math_max (x # xs) = Some (fold max xs x)"

text \<open>
  \<^verbatim>\<open>xs.sort(() => Math.random() - 0.5)\<close>: with a comparator that is not consistent the
  order is implementation-defined, and the result is a permutation of the elements.
  The random supply picks the permutation, one element at a time.
\<close>

fun random_permutation :: "(nat \<Rightarrow> nat) \<Rightarrow> nat \<Rightarrow> nat \<Rightarrow> 'a list \<Rightarrow> 'a list" where
  "random_permutation rnd k 0 xs = []"
| "random_permutation rnd k (Suc n) xs =
     (if xs = [] then []
      else (let i = random_below rnd k (length xs)
            in xs ! i # random_permutation rnd (k + 1) n (take i xs @ drop (Suc i) xs)))"

definition sort_random :: "(nat \<Rightarrow> nat) \<Rightarrow> nat \<Rightarrow> 'a list \<Rightarrow> 'a list" where
  "sort_random rnd k xs = random_permutation rnd k (length xs) xs"

text \<open>\<^verbatim>\<open>s.split('@')\<close> and the read of index 1 of the result.\<close>

fun split_on :: "char \<Rightarrow> string \<Rightarrow> string \<Rightarrow> string list" where
  "split_on sep cur [] = [cur]"
| "split_on sep cur (c # cs) =
     (if c = sep then cur # split_on sep [] cs else split_on sep (cur @ [c]) cs)"

definition email_domain :: "string \<Rightarrow> string option" where
  "email_domain e =
     (case split_on CHR ''@'' [] e of
        a # b # rest \<Rightarrow> Some b
      | _ \<Rightarrow> None)"

text \<open>The number of matches of \<^verbatim>\<open>/[aeiou]/g\<close>.\<close>

definition vowel_count :: "string \<Rightarrow> nat" where
  "vowel_count s = length (filter (\<lambda>c. c \<in> set ''aeiou'') s)"

section \<open>The clue engine (lib/clues.ts, the variant with ten clues)\<close>

datatype ClueType = Gender | Year | Count | Specific

datatype Difficulty = Easy | Medium | Hard

record ClueData =
  clue_text :: string
  clue_type :: ClueType
  difficulty :: Difficulty

text \<open>
  \<^verbatim>\<open>ParticipantAnalysis\<close>. The two fields of \<^verbatim>\<open>genderDistribution\<close> are \<open>male\<close> and
  \<open>female\<close>; \<open>mostCommonYearCount\<close> is \<open>None\<close> where \<^verbatim>\<open>Math.max()\<close> of no counts is
  minus infinity.
\<close>

record ParticipantAnalysis =
  yearDistribution :: "(int \<times> nat) list"
  male :: nat
  female :: nat
  mostCommonYear :: int
  mostCommonYearCount :: "nat option"
  uniqueYears :: nat
  totalParticipants :: nat
  excludedPairsCount :: nat
  isYearDistributionSkewed :: bool
  isGenderBalanced :: bool

definition count_year :: "(int \<times> nat) list \<Rightarrow> int \<Rightarrow> (int \<times> nat) list" where
  "count_year yd y = Map_set yd y ((case Map_get yd y of None \<Rightarrow> 0 | Some c \<Rightarrow> c) + 1)"

text \<open>
  \<^verbatim>\<open>analyzeParticipantDistribution\<close>. The comparison
  \<^verbatim>\<open>mostCommonYearCount / participants.length > 0.7\<close> of two doubles is the comparison
  \<open>10 * c > 7 * n\<close> of the integers (the quotient of two integers below \<open>2^50\<close> is never
  within rounding distance of 0.7 unless it is 0.7).
\<close>

definition analyzeParticipantDistribution :: "Participant list \<Rightarrow> Exclusion list \<Rightarrow> ParticipantAnalysis" where
  "analyzeParticipantDistribution participants exclusions =
     (let yearDist = foldl (\<lambda>yd p. count_year yd (yearMoved p)) [] participants;
          males = length (filter (\<lambda>p. toLowerCase (gender p) = ''male'') participants);
          females = length (filter (\<lambda>p. toLowerCase (gender p) \<noteq> ''male'' \<and>
                                          toLowerCase (gender p) = ''female'') participants);
          yearCounts = map snd yearDist;
          mcc = Math_max yearCounts;
          mcy = (case find (\<lambda>(y, c). Some c = mcc) yearDist of None \<Rightarrow> 0 | Some (y, c) \<Rightarrow> y);
          skewed = (case mcc of None \<Rightarrow> False | Some c \<Rightarrow> 10 * c > 7 * length participants)
      in \<lparr> yearDistribution = yearDist,
           male = males,
           female = females,
           mostCommonYear = mcy,
           mostCommonYearCount = mcc,
           uniqueYears = length yearDist,
           totalParticipants = length participants,
           excludedPairsCount = length exclusions,
           isYearDistributionSkewed = skewed,
           isGenderBalanced = (abs (int males - int females) \<le> 1) \<rparr>)"

text \<open>
  \<^verbatim>\<open>isClueObvious\<close>. \<^verbatim>\<open>x >= n * 0.5\<close> is \<open>2 * x \<ge> n\<close>, and
  \<^verbatim>\<open>Math.max(male, female) / totalGender > 0.8\<close> is \<open>5 * max > 4 * total\<close>.
\<close>

definition excludedPairsInMajorityYear ::
  "(string \<times> Participant) list \<Rightarrow> ParticipantAnalysis \<Rightarrow> Exclusion list \<Rightarrow> nat" where
  "excludedPairsInMajorityYear participantMap analysis exclusions =
     length (filter (\<lambda>exclusion.
        (let person1 = find (\<lambda>p. name p = participant1 exclusion) (Map_values participantMap);
             person2 = find (\<lambda>p. name p = participant2 exclusion) (Map_values participantMap)
         in map_option yearMoved person1 = Some (mostCommonYear analysis) \<and>
            map_option yearMoved person2 = Some (mostCommonYear analysis))) exclusions)"

definition isClueObvious ::
  "ClueData \<Rightarrow> Assignment list \<Rightarrow> (string \<times> Participant) list \<Rightarrow> ParticipantAnalysis
   \<Rightarrow> Exclusion list \<Rightarrow> bool" where
  "isClueObvious clue assignments participantMap analysis exclusions =
     (let clueText = toLowerCase (clue_text clue);
          totalGender = male analysis + female analysis
      in
      if clue_type clue = Year \<and> isYearDistributionSkewed analysis \<and>
         (includes' clueText ''different year'' \<or>
          includes' clueText ''same year'' \<or>
          includes' clueText ''who moved to montreal in the same year as them'') \<and>
         2 * excludedPairsInMajorityYear participantMap analysis exclusions
           \<ge> excludedPairsCount analysis
      then True
      else if clue_type clue = Year \<and> uniqueYears analysis \<le> 2 then True
      else if clue_type clue = Gender \<and> totalGender > 0 \<and>
              5 * max (male analysis) (female analysis) > 4 * totalGender
      then True
      else if clue_type clue = Gender \<and> excludedPairsCount analysis > 0 \<and> totalGender \<le> 4
      then True
      else if clue_type clue = Count \<and> totalParticipants analysis \<le> 4 \<and>
              includes' clueText ''there are'' \<and> includes' clueText ''people''
      then True
      else False)"

text \<open>
  The rows \<^verbatim>\<open>{giverYear, receiverYear, giver, receiver}\<close> that survive the filter
  \<^verbatim>\<open>a.giver && a.receiver\<close>; \<^verbatim>\<open>yearMoved || 0\<close> is \<open>yearMoved\<close> on an integer.
\<close>

record YearAssignment =
  giverYear :: int
  receiverYear :: int
  giver :: Participant
  receiver :: Participant

definition year_assignments :: "Assignment list \<Rightarrow> (string \<times> Participant) list \<Rightarrow> YearAssignment list" where
  "year_assignments assignments participantMap =
     List.map_filter (\<lambda>a.
        (case (Map_get participantMap (giverId a), Map_get participantMap (receiverId a)) of
           (Some g, Some r) \<Rightarrow>
             Some \<lparr> giverYear = yearMoved g, receiverYear = yearMoved r, giver = g, receiver = r \<rparr>
         | _ \<Rightarrow> None)) assignments"

text \<open>\<^verbatim>\<open>generateGenderGiftingClues\<close>: the counting loop, the local predicate, the clues.\<close>

fun count_gender_pair ::
  "(string \<times> Participant) list \<Rightarrow> nat \<times> nat \<times> nat \<times> nat \<Rightarrow> Assignment \<Rightarrow> nat \<times> nat \<times> nat \<times> nat" where
  "count_gender_pair participantMap (menToWomen, womenToMen, menToMen, womenToWomen) assignment =
     (case (Map_get participantMap (giverId assignment), Map_get participantMap (receiverId assignment)) of
        (Some g, Some r) \<Rightarrow>
          (if toLowerCase (gender g) = ''male'' \<and> toLowerCase (gender r) = ''female''
           then (menToWomen + 1, womenToMen, menToMen, womenToWomen)
           else if toLowerCase (gender g) = ''female'' \<and> toLowerCase (gender r) = ''male''
           then (menToWomen, womenToMen + 1, menToMen, womenToWomen)
           else if toLowerCase (gender g) = ''male'' \<and> toLowerCase (gender r) = ''male''
           then (menToWomen, womenToMen, menToMen + 1, womenToWomen)
           else if toLowerCase (gender g) = ''female'' \<and> toLowerCase (gender r) = ''female''
           then (menToWomen, womenToMen, menToMen, womenToWomen + 1)
           else (menToWomen, womenToMen, menToMen, womenToWomen))
      | _ \<Rightarrow> (menToWomen, womenToMen, menToMen, womenToWomen))"

definition isGenderPatternObvious ::
  "(string \<times> Participant) list \<Rightarrow> Exclusion list \<Rightarrow> string \<Rightarrow> bool" where
  "isGenderPatternObvious participantMap exclusions pattern =
     (let participants = Map_values participantMap;
          males = filter (\<lambda>p. toLowerCase (gender p) = ''male'') participants;
          females = filter (\<lambda>p. toLowerCase (gender p) = ''female'') participants
      in if includes' pattern ''women are giving gifts to other women'' \<and> length females = 2
         then list_ex (\<lambda>e. list_ex (\<lambda>f. name f = participant1 e) females \<and>
                            list_ex (\<lambda>f. name f = participant2 e) females) exclusions
         else if includes' pattern ''men are giving gifts to other men'' \<and> length males = 2
         then list_ex (\<lambda>e. list_ex (\<lambda>m. name m = participant1 e) males \<and>
                            list_ex (\<lambda>m. name m = participant2 e) males) exclusions
         else False)"

definition generateGenderGiftingClues ::
  "Assignment list \<Rightarrow> (string \<times> Participant) list \<Rightarrow> Exclusion list \<Rightarrow> ClueData list" where
  "generateGenderGiftingClues assignments participantMap exclusions =
     (case foldl (count_gender_pair participantMap) (0, 0, 0, 0) assignments of
        (menToWomen, womenToMen, menToMen, womenToWomen) \<Rightarrow>
          (if menToWomen = 0 \<and> \<not> isGenderPatternObvious participantMap exclusions ''men to women''
           then [\<lparr> clue_text = ''No men are giving gifts to women'',
                   clue_type = Gender, difficulty = Medium \<rparr>]
           else if menToWomen = 1
           then [\<lparr> clue_text = ''Exactly one man is giving a gift to a woman'',
                   clue_type = Gender, difficulty = Easy \<rparr>]
           else if menToWomen > 1
           then [\<lparr> clue_text = show_nat menToWomen @ '' men are giving gifts to women'',
                   clue_type = Gender, difficulty = Easy \<rparr>]
           else []) @
          (if womenToMen = 0 \<and> \<not> isGenderPatternObvious participantMap exclusions ''women to men''
           then [\<lparr> clue_text = ''No women are giving gifts to men'',
                   clue_type = Gender, difficulty = Medium \<rparr>]
           else if womenToMen = 1
           then [\<lparr> clue_text = ''Exactly one woman is giving a gift to a man'',
                   clue_type = Gender, difficulty = Easy \<rparr>]
           else if womenToMen > 1
           then [\<lparr> clue_text = show_nat womenToMen @ '' women are giving gifts to men'',
                   clue_type = Gender, difficulty = Easy \<rparr>]
           else []) @
          (if menToMen = 0 \<and>
              \<not> isGenderPatternObvious participantMap exclusions ''men are giving gifts to other men''
           then [\<lparr> clue_text = ''No men are giving gifts to other men'',
                   clue_type = Gender, difficulty = Medium \<rparr>]
           else []) @
          (if womenToWomen = 0 \<and>
              \<not> isGenderPatternObvious participantMap exclusions ''women are giving gifts to other women''
           then [\<lparr> clue_text = ''No women are giving gifts to other women'',
                   clue_type = Gender, difficulty = Medium \<rparr>]
           else []))"

text \<open>\<^verbatim>\<open>generateYearGiftingClues\<close>\<close>

definition generateYearGiftingClues ::
  "Assignment list \<Rightarrow> (string \<times> Participant) list \<Rightarrow> ClueData list" where
  "generateYearGiftingClues assignments participantMap =
     (let yearAssignments = year_assignments assignments participantMap;
          years = map yearMoved (Map_values participantMap);
          uniqueYears = Set_values (map giverYear yearAssignments @ map receiverYear yearAssignments);
          sameYearCount = length (filter (\<lambda>a. giverYear a = receiverYear a) yearAssignments);
          olderToNewer = length (filter (\<lambda>a. giverYear a < receiverYear a) yearAssignments);
          newerToOlder = length (filter (\<lambda>a. giverYear a > receiverYear a) yearAssignments)
      in
      (case Math_min years of
         None \<Rightarrow> []
       | Some earliestYear \<Rightarrow>
           (case filter (\<lambda>p. yearMoved p = earliestYear) (Map_values participantMap) of
              [earliestMover] \<Rightarrow>
                (case find (\<lambda>a. id' (giver a) = id' earliestMover) yearAssignments of
                   None \<Rightarrow> []
                 | Some assignment \<Rightarrow>
                     if receiverYear assignment \<noteq> earliestYear
                     then [\<lparr> clue_text = ''The longest Montreal resident (since '' @
                               show_int earliestYear @
                               '') is giving to someone who arrived in '' @
                               show_int (receiverYear assignment),
                             clue_type = Year, difficulty = Medium \<rparr>]
                     else [])
            | _ \<Rightarrow> [])) @
      (case Math_max years of
         None \<Rightarrow> []
       | Some latestYear \<Rightarrow>
           (case filter (\<lambda>p. yearMoved p = latestYear) (Map_values participantMap) of
              [latestMover] \<Rightarrow>
                (case find (\<lambda>a. id' (receiver a) = id' latestMover) yearAssignments of
                   None \<Rightarrow> []
                 | Some assignment \<Rightarrow>
                     if giverYear assignment \<noteq> latestYear
                     then [\<lparr> clue_text = ''The newest Montreal resident (arrived '' @
                               show_int latestYear @
                               '') is receiving from someone who moved in '' @
                               show_int (giverYear assignment),
                             clue_type = Year, difficulty = Medium \<rparr>]
                     else [])
            | _ \<Rightarrow> [])) @
      (if length uniqueYears \<ge> 3 then
         (if sameYearCount = 0
          then [\<lparr> clue_text = ''No one is giving a gift to someone who moved to Montreal in the same year as them'',
                  clue_type = Year, difficulty = Easy \<rparr>]
          else if sameYearCount = 1
          then [\<lparr> clue_text = ''Exactly one person is giving a gift to someone who moved to Montreal in the same year as them'',
                  clue_type = Year, difficulty = Medium \<rparr>]
          else if sameYearCount > 1 \<and> int sameYearCount < int (length yearAssignments) - 1
          then [\<lparr> clue_text = show_nat sameYearCount @
                    '' people are giving gifts to someone who moved to Montreal in the same year as them'',
                  clue_type = Year, difficulty = Hard \<rparr>]
          else []) @
         (if olderToNewer = 0 \<and> length yearAssignments \<ge> 4
          then [\<lparr> clue_text = ''No longtime Montreal residents are giving gifts to newer residents'',
                  clue_type = Year, difficulty = Medium \<rparr>]
          else []) @
         (if newerToOlder = 0 \<and> length yearAssignments \<ge> 4
          then [\<lparr> clue_text = ''No newer Montreal residents are giving gifts to longtime residents'',
                  clue_type = Year, difficulty = Medium \<rparr>]
          else [])
       else []))"

text \<open>
  The default \<^verbatim>\<open>sort()\<close> of an array of numbers: stable, by the code units of their
  decimal texts.
\<close>

fun insert_by_text :: "int \<Rightarrow> int list \<Rightarrow> int list" where
  "insert_by_text x [] = [x]"
| "insert_by_text x (y # ys) =
     (if string_less (show_int y) (show_int x) then y # insert_by_text x ys else x # y # ys)"

definition sort_default :: "int list \<Rightarrow> int list" where
  "sort_default xs = foldr insert_by_text xs []"

text \<open>
  \<^verbatim>\<open>generateSpecificPatternClues\<close>; it draws one random number when its first guard
  holds, and returns the cursor of the random supply with the clues.
\<close>

definition generateSpecificPatternClues ::
  "(nat \<Rightarrow> nat) \<Rightarrow> nat \<Rightarrow> Assignment list \<Rightarrow> (string \<times> Participant) list \<Rightarrow> ClueData list \<times> nat" where
  "generateSpecificPatternClues rnd k assignments participantMap =
     (let participants = Map_values participantMap;
          years = sort_default (Set_values (map yearMoved participants));
          yearAssignments =
            filter (\<lambda>a. giverYear a \<noteq> receiverYear a) (year_assignments assignments participantMap);
          uniqueGiverYears = Set_values (map giverYear yearAssignments);
          uniqueReceiverYears = Set_values (map receiverYear yearAssignments);
          pick = (length yearAssignments > 0 \<and> length uniqueGiverYears \<ge> 2 \<and>
                  length uniqueReceiverYears \<ge> 2);
          gapClues =
            (if pick then
               (let randomAssignment = yearAssignments ! random_below rnd k (length yearAssignments);
                    yearGap = abs (giverYear randomAssignment - receiverYear randomAssignment);
                    sameYearGivers =
                      filter (\<lambda>a. giverYear a = giverYear randomAssignment) yearAssignments
                in if yearGap > 1 \<and> (length sameYearGivers > 1 \<or> length uniqueGiverYears > 2)
                   then [\<lparr> clue_text = ''Someone who moved to Montreal in '' @
                             show_int (giverYear randomAssignment) @
                             '' is giving to someone who arrived in '' @
                             show_int (receiverYear randomAssignment),
                           clue_type = Year, difficulty = Hard \<rparr>]
                   else [])
             else []);
          rangeClues =
            (if length years \<ge> 3 then
               (case (Math_min years, Math_max years) of
                  (Some oldestYear, Some newestYear) \<Rightarrow>
                    (let middleYears = filter (\<lambda>y. y \<noteq> oldestYear \<and> y \<noteq> newestYear) years;
                         someoneGivingToMiddle =
                           list_ex (\<lambda>a.
                              (case Map_get participantMap (receiverId a) of
                                 None \<Rightarrow> 0
                               | Some p \<Rightarrow> yearMoved p) \<in> set middleYears) assignments
                     in if length middleYears > 0 \<and> someoneGivingToMiddle
                        then [\<lparr> clue_text =
                                  ''At least one person is giving to someone who moved to Montreal between '' @
                                  show_int (oldestYear + 1) @ '' and '' @ show_int (newestYear - 1),
                                clue_type = Year, difficulty = Medium \<rparr>]
                        else [])
                | _ \<Rightarrow> [])
             else [])
      in (gapClues @ rangeClues, if pick then k + 1 else k))"

text \<open>
  \<^verbatim>\<open>generateSmartBackupClues\<close>. \<^verbatim>\<open>participants.sort((a, b) => b.yearMoved - a.yearMoved)\<close>
  is the stable sort by descending year, \<^verbatim>\<open>Math.ceil(n / 3)\<close> is \<open>(n + 2) div 3\<close>.
\<close>

definition generateSmartBackupClues ::
  "'w runtime \<Rightarrow> Assignment list \<Rightarrow> (string \<times> Participant) list \<Rightarrow> ParticipantAnalysis
   \<Rightarrow> Exclusion list \<Rightarrow> nat \<Rightarrow> ClueData list" where
  "generateSmartBackupClues rt assignments participantMap analysis exclusions needed =
     (let participants = Map_values participantMap;
          pairs = (\<lambda>a. (Map_get participantMap (giverId a), Map_get participantMap (receiverId a)));
          alphabeticalGiving =
            length (filter (\<lambda>a.
              (case pairs a of
                 (Some g, Some r) \<Rightarrow> string_less (toLowerCase (name g)) (toLowerCase (name r))
               | _ \<Rightarrow> False)) assignments);
          longToShortNames =
            length (filter (\<lambda>a.
              (case pairs a of
                 (Some g, Some r) \<Rightarrow> length (name g) > length (name r)
               | _ \<Rightarrow> False)) assignments);
          yearGaps =
            filter (\<lambda>gap. gap > 0)
              (map (\<lambda>a.
                 (case pairs a of
                    (Some g, Some r) \<Rightarrow> abs (yearMoved g - yearMoved r)
                  | _ \<Rightarrow> 0)) assignments);
          emailDomains = map (\<lambda>p. email_domain (email p)) participants;
          uniqueDomains = Set_values emailDomains;
          domainCounts = map (\<lambda>d. length (filter (\<lambda>x. x = d) emailDomains)) uniqueDomains;
          vowelCounts = map (\<lambda>p. vowel_count (toLowerCase (name p))) participants;
          sortedByYear = sort_key (\<lambda>p. - yearMoved p) participants;
          recentArrivals = take ((length participants + 2) div 3) sortedByYear;
          recentArrivalsReceiving =
            length (filter (\<lambda>a. list_ex (\<lambda>p. id' p = receiverId a) recentArrivals) assignments);
          clues =
            (if needed > 0 \<and> totalParticipants analysis \<ge> 5 \<and>
                alphabeticalGiving > 0 \<and> alphabeticalGiving \<noteq> totalParticipants analysis
             then [\<lparr> clue_text = show_nat alphabeticalGiving @ '' '' @
                       (if alphabeticalGiving = 1 then ''person is'' else ''people are'') @
                       '' giving gifts to someone whose name comes later in the alphabet'',
                     clue_type = Specific, difficulty = Hard \<rparr>]
             else []) @
            (if needed > 1 \<and> longToShortNames > 0
             then [\<lparr> clue_text = show_nat longToShortNames @ '' '' @
                       (if longToShortNames = 1 then ''person with a longer name is''
                        else ''people with longer names are'') @
                       '' giving gifts to someone with a shorter name'',
                     clue_type = Specific, difficulty = Hard \<rparr>]
             else []) @
            (if needed > 2 \<and> \<not> isYearDistributionSkewed analysis then
               (case Math_max yearGaps of
                  None \<Rightarrow> []
                | Some maxGap \<Rightarrow>
                    if maxGap \<ge> 2
                    then [\<lparr> clue_text =
                              ''The biggest time gap between a gift-giver and receiver'' @ [CHR 0x27] @
                              ''s Montreal arrival dates is '' @ show_int maxGap @ '' years'',
                            clue_type = Year, difficulty = Hard \<rparr>]
                    else [])
             else []) @
            (if needed > 3 \<and> length uniqueDomains > 1 \<and> length uniqueDomains < length participants then
               (case Math_max domainCounts of
                  None \<Rightarrow> []
                | Some mostCommonDomainCount \<Rightarrow>
                    [\<lparr> clue_text = show_nat mostCommonDomainCount @
                         '' participants share the same email provider'',
                       clue_type = Specific, difficulty = Medium \<rparr>])
             else []) @
            (if needed > 4
             then [\<lparr> clue_text = ''The average number of vowels in participants'' @ [CHR 0x27] @
                       '' names is '' @ format_average rt (sum_list vowelCounts) (length vowelCounts),
                     clue_type = Specific, difficulty = Medium \<rparr>]
             else []) @
            (if needed > 5 \<and> recentArrivalsReceiving > 0
             then [\<lparr> clue_text = show_nat recentArrivalsReceiving @
                       '' of the most recent Montreal arrivals are receiving gifts'',
                     clue_type = Year, difficulty = Medium \<rparr>]
             else []);
          nonObviousBackups =
            filter (\<lambda>clue. \<not> isClueObvious clue assignments participantMap analysis exclusions) clues
      in take needed nonObviousBackups)"

text \<open>
  The typed reading of a parsed value as \<^verbatim>\<open>Assignment[]\<close>: an array of objects whose
  \<^verbatim>\<open>giverId\<close> and \<^verbatim>\<open>receiverId\<close> are strings.
\<close>

fun as_assignment :: "json \<Rightarrow> Assignment option" where
  "as_assignment (JObject kvs) =
     (case (map_of (rev kvs) ''giverId'', map_of (rev kvs) ''receiverId'') of
        (Some (JString g), Some (JString r)) \<Rightarrow> Some \<lparr> giverId = g, receiverId = r \<rparr>
      | _ \<Rightarrow> None)"
| "as_assignment _ = None"

fun all_some :: "'a option list \<Rightarrow> 'a list option" where
  "all_some [] = Some []"
| "all_some (None # xs) = None"
| "all_some (Some x # xs) = (case all_some xs of None \<Rightarrow> None | Some ys \<Rightarrow> Some (x # ys))"

fun as_assignments :: "json \<Rightarrow> Assignment list option" where
  "as_assignments (JArray xs) = all_some (map as_assignment xs)"
| "as_assignments _ = None"

text \<open>
  \<^verbatim>\<open>generateClues\<close>, up to the last line: the shuffled clues that are not obvious, and
  the backup clues behind them when there are fewer than ten.
\<close>

definition clue_pool ::
  "'w runtime \<Rightarrow> (nat \<Rightarrow> nat) \<Rightarrow> Assignment list \<Rightarrow> Participant list \<Rightarrow> Exclusion list \<Rightarrow> ClueData list" where
  "clue_pool rt rnd assignments participants exclusions =
     (let participantMap = new_Map (map (\<lambda>p. (id' p, p)) participants);
          participantAnalysis = analyzeParticipantDistribution participants exclusions;
          (specificClues, k) = generateSpecificPatternClues rnd 0 assignments participantMap;
          allClues =
            generateGenderGiftingClues assignments participantMap exclusions @
            generateYearGiftingClues assignments participantMap @
            specificClues;
          nonObviousClues =
            filter (\<lambda>clue. \<not> isClueObvious clue assignments participantMap participantAnalysis exclusions)
              allClues;
          shuffled = sort_random rnd k nonObviousClues
      in if length shuffled < 10
         then shuffled @
              generateSmartBackupClues rt assignments participantMap participantAnalysis exclusions
                (10 - length shuffled)
         else shuffled)"

text \<open>
  \<^verbatim>\<open>generateClues\<close>. The error of \<^verbatim>\<open>decryptAssignments\<close> propagates. A token whose
  plaintext is not an \<^verbatim>\<open>Assignment[]\<close> is outside the declared type of the first line;
  the model marks it \<open>TypeError\<close> and says nothing more about it.
\<close>

definition generateClues ::
  "'w runtime \<Rightarrow> (nat \<Rightarrow> nat) \<Rightarrow> string \<Rightarrow> Participant list \<Rightarrow> Exclusion list
   \<Rightarrow> error + ClueData list" where
  "generateClues rt rnd encryptedAssignments participants exclusions =
     (case decryptAssignments rt encryptedAssignments of
        Inl e \<Rightarrow> Inl e
      | Inr v \<Rightarrow>
          (case as_assignments v of
             None \<Rightarrow> Inl TypeError
           | Some assignments \<Rightarrow> Inr (take 10 (clue_pool rt rnd assignments participants exclusions))))"

section \<open>The properties the claims speak of\<close>

text \<open>
  An assignment list is a valid derangement of the participants when every participant's
  id is the giver of exactly one assignment and the receiver of exactly one, and no
  assignment gives to itself.
\<close>

definition count_giver :: "Assignment list \<Rightarrow> string \<Rightarrow> nat" where
  "count_giver A i = length (filter (\<lambda>a. giverId a = i) A)"

definition count_receiver :: "Assignment list \<Rightarrow> string \<Rightarrow> nat" where
  "count_receiver A i = length (filter (\<lambda>a. receiverId a = i) A)"

definition valid_derangement :: "Participant list \<Rightarrow> Assignment list \<Rightarrow> bool" where
  "valid_derangement ps A =
     (list_all (\<lambda>p. count_giver A (id' p) = 1 \<and> count_receiver A (id' p) = 1) ps \<and>
      list_all (\<lambda>a. giverId a \<noteq> receiverId a) A)"

text \<open>
  A giver and a receiver match an exclusion pair when their names are the two names of a
  \<open>no_couples\<close> constraint, in either order. An assignment list respects the exclusions
  when no assignment joins two participants that match one.
\<close>

definition matches_exclusion :: "Participant \<Rightarrow> Participant \<Rightarrow> AssignmentConstraint \<Rightarrow> bool" where
  "matches_exclusion g r c =
     (case cdata c of
        None \<Rightarrow> False
      | Some d \<Rightarrow>
          ctype c = no_couples \<and>
          ((name g = participant1 d \<and> name r = participant2 d) \<or>
           (name g = participant2 d \<and> name r = participant1 d)))"

definition violates :: "Participant list \<Rightarrow> AssignmentConstraint list \<Rightarrow> Assignment \<Rightarrow> bool" where
  "violates ps cs a =
     list_ex (\<lambda>g. list_ex (\<lambda>r. id' g = giverId a \<and> id' r = receiverId a \<and>
                               list_ex (matches_exclusion g r) cs) ps) ps"

definition respects_exclusions :: "Participant list \<Rightarrow> AssignmentConstraint list \<Rightarrow> Assignment list \<Rightarrow> bool" where
  "respects_exclusions ps cs A = (\<not> list_ex (violates ps cs) A)"

text \<open>The cursor of the random supply at the start of attempt number \<open>i\<close> (from 0).\<close>

definition attempt_cursor :: "Participant list \<Rightarrow> nat \<Rightarrow> nat" where
  "attempt_cursor ps i = i * (length ps - 1)"

text \<open>The pair an attempt records for a giver and the receiver chosen for it.\<close>

definition pair_up :: "Participant \<Rightarrow> Participant \<Rightarrow> Assignment" where
  "pair_up g v = \<lparr> giverId = id' g, receiverId = id' v \<rparr>"

text \<open>The tokens of the text \<^verbatim>\<open>JSON.stringify\<close> writes for an assignment list.\<close>

definition assignment_tokens :: "Assignment \<Rightarrow> token list" where
  "assignment_tokens a =
     [TLBrace, TString ''giverId'', TColon, TString (giverId a), TComma,
      TString ''receiverId'', TColon, TString (receiverId a), TRBrace]"

fun list_tokens :: "Assignment list \<Rightarrow> token list" where
  "list_tokens [] = []"
| "list_tokens [a] = assignment_tokens a"
| "list_tokens (a # b # bs) = assignment_tokens a @ TComma # list_tokens (b # bs)"

text \<open>Participants, constraints and assignments for the concrete runs below.\<close>

definition person :: "string \<Rightarrow> string \<Rightarrow> string \<Rightarrow> int \<Rightarrow> Participant" where
  "person i n g y =
     \<lparr> id' = i, gameId = ''game'', name = n, email = n @ ''@example.org'', gender = g, yearMoved = y \<rparr>"

definition ann :: Participant where "ann = person ''p1'' ''Ann'' ''female'' 2010"
definition bob :: Participant where "bob = person ''p2'' ''Bob'' ''male'' 2015"
definition cyd :: Participant where "cyd = person ''p3'' ''Cyd'' ''male'' 2018"
definition dee :: Participant where "dee = person ''p4'' ''Dee'' ''female'' 2020"

definition couple :: "string \<Rightarrow> string \<Rightarrow> AssignmentConstraint" where
  "couple a b = \<lparr> ctype = no_couples, cdata = Some \<lparr> participant1 = a, participant2 = b, reason = None \<rparr> \<rparr>"

definition gives :: "Participant \<Rightarrow> Participant \<Rightarrow> Assignment" where
  "gives g r = \<lparr> giverId = id' g, receiverId = id' r \<rparr>"

definition excluded :: "string \<Rightarrow> string \<Rightarrow> Exclusion" where
  "excluded a b = \<lparr> participant1 = a, participant2 = b, reason = None \<rparr>"

section \<open>Lemmas: the text of JSON.stringify parses back\<close>

lemma hex_all: "list_all (\<lambda>d. hex_value (hex_digit d) = Some d) [0..<16]"
  by code_simp

lemma hex_value_hex_digit: "d < 16 \<Longrightarrow> hex_value (hex_digit d) = Some d"
  using hex_all unfolding list_all_iff by simp

lemma lex_InString_plain:
  "c \<noteq> CHR 0x22 \<Longrightarrow> c \<noteq> CHR 0x5C \<Longrightarrow> \<not> char_code c < 0x20 \<Longrightarrow>
   lex (InString acc) (c # rest) = lex (InString (acc @ [c])) rest"
  by (simp split: option.splits)

lemma lex_InString_escape:
  "lex_step (InEscape acc) e = Some (InString (acc @ [c]), []) \<Longrightarrow>
   lex (InString acc) (CHR 0x5C # e # rest) = lex (InString (acc @ [c])) rest"
  by (simp split: option.splits)

lemma lex_InString_unicode:
  assumes "n < 32"
  shows "lex (InString acc) ([CHR 0x5C, CHR ''u'', CHR ''0'', CHR ''0'', hex_digit (n div 16), hex_digit (n mod 16)] @ rest)
          = lex (InString (acc @ [char_of n])) rest"
proof -
  have d1: "hex_value (hex_digit (n div 16)) = Some (n div 16)"
    using assms by (intro hex_value_hex_digit) simp
  have d2: "hex_value (hex_digit (n mod 16)) = Some (n mod 16)"
    by (intro hex_value_hex_digit) simp
  have z: "hex_value CHR ''0'' = Some 0" by (simp add: hex_value_def char_code_def)
  have v: "16 * (n div 16) + n mod 16 = n" by simp
  have lt: "n < 256" using assms by simp
  show ?thesis
    by (simp add: d1 d2 z v lt split: option.splits)
qed

lemma lex_quote_char:
  "lex (InString acc) (QuoteChar c @ rest) = lex (InString (acc @ [c])) rest"
proof (cases "c \<in> {CHR 0x08, CHR 0x09, CHR 0x0A, CHR 0x0C, CHR 0x0D, CHR 0x22, CHR 0x5C}")
  case True
  then consider "c = CHR 0x08" | "c = CHR 0x09" | "c = CHR 0x0A" | "c = CHR 0x0C" | "c = CHR 0x0D"
    | "c = CHR 0x22" | "c = CHR 0x5C" by blast
  then show ?thesis
    by cases (simp_all add: QuoteChar_def split: option.splits)
next
  case False
  show ?thesis
  proof (cases "(of_char c :: nat) < 0x20")
    case True
    have q: "QuoteChar c = [CHR 0x5C, CHR ''u'', CHR ''0'', CHR ''0'',
         hex_digit (of_char c div 16), hex_digit (of_char c mod 16)]"
      using False True by (simp add: QuoteChar_def)
    show ?thesis unfolding q using lex_InString_unicode[OF True, of acc rest] by simp
  next
    case F2: False
    have q: "QuoteChar c = [c]" using False F2 by (simp add: QuoteChar_def)
    show ?thesis unfolding q using False F2
      by (simp add: lex_InString_plain char_code_def del: lex.simps)
  qed
qed

lemma lex_quote_body:
  "lex (InString acc) (concat (map QuoteChar s) @ rest) = lex (InString (acc @ s)) rest"
proof (induction s arbitrary: acc)
  case Nil
  then show ?case by simp
next
  case (Cons c s)
  show ?case using lex_quote_char[of acc c "concat (map QuoteChar s) @ rest"] Cons.IH[of "acc @ [c]"]
    by simp
qed

lemma lex_QuoteJSONString:
  "lex Idle (QuoteJSONString s @ rest) = map_option ((#) (TString s)) (lex Idle rest)"
proof -
  have "lex Idle (QuoteJSONString s @ rest) = lex (InString []) (concat (map QuoteChar s) @ CHR 0x22 # rest)"
    by (simp add: QuoteJSONString_def idle_step_def split: option.splits)
  also have "\<dots> = lex (InString s) (CHR 0x22 # rest)"
    using lex_quote_body[of "[]" s "CHR 0x22 # rest"] by simp
  also have "\<dots> = map_option ((#) (TString s)) (lex Idle rest)"
    by (simp split: option.splits)
  finally show ?thesis .
qed

lemma lex_punct:
  "lex Idle (CHR ''['' # rest) = map_option ((#) TLBracket) (lex Idle rest)"
  "lex Idle (CHR '']'' # rest) = map_option ((#) TRBracket) (lex Idle rest)"
  "lex Idle (CHR ''{'' # rest) = map_option ((#) TLBrace) (lex Idle rest)"
  "lex Idle (CHR ''}'' # rest) = map_option ((#) TRBrace) (lex Idle rest)"
  "lex Idle (CHR '','' # rest) = map_option ((#) TComma) (lex Idle rest)"
  "lex Idle (CHR '':'' # rest) = map_option ((#) TColon) (lex Idle rest)"
  by (simp_all add: idle_step_def split: option.splits)


lemma lex_SerializeAssignment:
  "lex Idle (SerializeAssignment a @ rest) = map_option ((@) (assignment_tokens a)) (lex Idle rest)"
  by (cases "lex Idle rest")
     (simp_all add: SerializeAssignment_def lex_punct lex_QuoteJSONString assignment_tokens_def
      del: lex.simps)


lemma lex_join_comma:
  "lex Idle (join_comma (map SerializeAssignment as) @ rest)
     = map_option ((@) (list_tokens as)) (lex Idle rest)"
proof (induction as rule: list_tokens.induct)
  case 1
  then show ?case by (cases "lex Idle rest") simp_all
next
  case (2 a)
  then show ?case by (simp add: lex_SerializeAssignment del: lex.simps)
next
  case (3 a b bs)
  have "lex Idle (join_comma (map SerializeAssignment (a # b # bs)) @ rest)
      = lex Idle (SerializeAssignment a @ (CHR '','' # join_comma (map SerializeAssignment (b # bs)) @ rest))"
    by simp
  also have "\<dots> = map_option ((@) (assignment_tokens a))
      (map_option ((#) TComma) (map_option ((@) (list_tokens (b # bs))) (lex Idle rest)))"
    unfolding lex_SerializeAssignment lex_punct 3 ..
  also have "\<dots> = map_option ((@) (list_tokens (a # b # bs))) (lex Idle rest)"
    by (cases "lex Idle rest") simp_all
  finally show ?case .
qed

lemma lex_JSON_stringify:
  "lex Idle (JSON_stringify as) = Some (TLBracket # list_tokens as @ [TRBracket])"
proof -
  have "lex Idle (JSON_stringify as)
      = map_option ((#) TLBracket) (lex Idle (join_comma (map SerializeAssignment as) @ '']''))"
    unfolding JSON_stringify_def by (simp add: lex_punct del: lex.simps)
  also have "\<dots> = map_option ((#) TLBracket) (map_option ((@) (list_tokens as)) (lex Idle '']''))"
    unfolding lex_join_comma ..
  also have "lex Idle '']'' = Some [TRBracket]" by (simp add: idle_step_def)
  finally show ?thesis by simp
qed

lemma parse_assignment_tokens:
  "e = Value \<or> e = ValueOrEnd \<Longrightarrow>
   parse_tokens e (ArrayFrame xs # st) (assignment_tokens a @ rest)
     = parse_tokens CommaOrEnd (ArrayFrame (xs @ [js_of_assignment a]) # st) rest"
  by (auto simp: assignment_tokens_def js_of_assignment_def)

lemma parse_list_tokens:
  "as \<noteq> [] \<Longrightarrow> e = Value \<or> e = ValueOrEnd \<Longrightarrow>
   parse_tokens e (ArrayFrame xs # st) (list_tokens as @ rest)
     = parse_tokens CommaOrEnd (ArrayFrame (xs @ map js_of_assignment as) # st) rest"
proof (induction as arbitrary: xs e rule: list_tokens.induct)
  case 1
  then show ?case by simp
next
  case (2 a)
  then show ?case using parse_assignment_tokens[of e xs st a rest] by simp
next
  case (3 a b bs)
  have "parse_tokens e (ArrayFrame xs # st) (list_tokens (a # b # bs) @ rest)
      = parse_tokens e (ArrayFrame xs # st) (assignment_tokens a @ (TComma # list_tokens (b # bs) @ rest))"
    by simp
  also have "\<dots> = parse_tokens CommaOrEnd (ArrayFrame (xs @ [js_of_assignment a]) # st)
       (TComma # list_tokens (b # bs) @ rest)"
    using parse_assignment_tokens[OF "3.prems"(2)] by simp
  also have "\<dots> = parse_tokens Value (ArrayFrame (xs @ [js_of_assignment a]) # st)
       (list_tokens (b # bs) @ rest)"
    by simp
  also have "\<dots> = parse_tokens CommaOrEnd
       (ArrayFrame ((xs @ [js_of_assignment a]) @ map js_of_assignment (b # bs)) # st) rest"
    by (rule "3.IH") simp_all
  finally show ?case by simp
qed

lemma JSON_parse_stringify: "JSON_parse (JSON_stringify as) = Some (js_of_assignments as)"
proof (cases "as = []")
  case True
  then show ?thesis by (simp add: JSON_parse_def lex_JSON_stringify js_of_assignments_def)
next
  case False
  have "parse_tokens ValueOrEnd [ArrayFrame []] (list_tokens as @ [TRBracket])
      = parse_tokens CommaOrEnd [ArrayFrame ([] @ map js_of_assignment as)] [TRBracket]"
    by (rule parse_list_tokens[OF False]) simp
  then show ?thesis
    by (simp add: JSON_parse_def lex_JSON_stringify js_of_assignments_def)
qed

lemma decrypt_encrypt:
  "cipher_roundtrip rt \<Longrightarrow> decryptAssignments rt (encryptAssignments rt as) = Inr (js_of_assignments as)"
proof -
  assume "cipher_roundtrip rt"
  then obtain w where "AES_decrypt rt (AES_encrypt rt (JSON_stringify as) (ENCRYPTION_KEY rt)) (ENCRYPTION_KEY rt) = Some w"
    "Utf8_stringify rt w = Some (JSON_stringify as)"
    unfolding cipher_roundtrip_def by blast
  then show ?thesis
    by (simp add: decryptAssignments_def encryptAssignments_def JSON_parse_stringify)
qed

section \<open>Lemmas: one attempt, and the retry loop\<close>

lemma shuffle_from_mset:
  "i < length xs \<Longrightarrow> mset (fst (shuffle_from rnd k i xs)) = mset xs"
proof (induction i arbitrary: k xs)
  case 0
  then show ?case by simp
next
  case (Suc i)
  let ?j = "random_below rnd k (Suc i + 1)"
  have "?j < Suc i + 1" unfolding random_below_def by (rule mod_less_divisor) simp
  then have j: "?j < length xs" using Suc.prems by simp
  show ?case using Suc.IH[of "xs[Suc i := xs ! ?j, ?j := xs ! Suc i]" "k+1"] Suc.prems j
    by (simp add: Let_def mset_swap)
qed

lemma shuffle_from_cursor: "snd (shuffle_from rnd k i xs) = k + i"
  by (induction i arbitrary: k xs) (simp_all add: Let_def)

lemma shuffle_mset: "mset (fst (shuffle rnd k xs)) = mset xs"
  by (cases xs) (simp_all add: shuffle_def shuffle_from_mset)

lemma shuffle_cursor: "snd (shuffle rnd k xs) = k + (length xs - 1)"
  by (simp add: shuffle_def shuffle_from_cursor)

lemma find_receiver_Some:
  "find_receiver g as cs rs = Some (v, rest) \<Longrightarrow>
     mset rs = add_mset v (mset rest) \<and> isValidAssignment g v as cs"
  by (induction rs arbitrary: v rest) (auto split: if_splits option.splits)


lemma assign_givers_Inr:
  "assign_givers cs gs rs acc = Inr A \<Longrightarrow>
     \<exists>vs. length vs = length gs \<and> mset vs \<subseteq># mset rs \<and> A = acc @ map2 pair_up gs vs \<and>
          list_all2 (\<lambda>g v. id' g \<noteq> id' v \<and> check_constraints g v cs) gs vs"
proof (induction gs arbitrary: rs acc)
  case Nil
  then show ?case by simp
next
  case (Cons g gs)
  from Cons.prems obtain v rest where f: "find_receiver g acc cs rs = Some (v, rest)"
    and r: "assign_givers cs gs rest (acc @ [\<lparr> giverId = id' g, receiverId = id' v \<rparr>]) = Inr A"
    by (auto split: option.splits)
  from find_receiver_Some[OF f] have m: "mset rs = add_mset v (mset rest)"
    and ok: "id' g \<noteq> id' v" "check_constraints g v cs"
    by (auto simp: isValidAssignment_def split: if_splits)
  from Cons.IH[OF r] obtain vs where vs: "length vs = length gs" "mset vs \<subseteq># mset rest"
    "A = (acc @ [\<lparr> giverId = id' g, receiverId = id' v \<rparr>]) @ map2 pair_up gs vs"
    "list_all2 (\<lambda>g v. id' g \<noteq> id' v \<and> check_constraints g v cs) gs vs" by blast
  show ?case
    apply (rule exI[of _ "v # vs"])
    using vs m ok by (simp add: pair_up_def)
qed

lemma assign_givers_Inl:
  "assign_givers cs gs rs acc = Inl e \<Longrightarrow> \<exists>g \<in> set gs. e = NoValidReceiver (name g)"
  by (induction gs arbitrary: rs acc) (auto split: option.splits)

lemma attemptAssignment_cursor:
  "snd (attemptAssignment rnd k ps cs) = k + (length ps - 1)"
  using shuffle_cursor[of rnd k ps]
  by (auto simp: attemptAssignment_def Let_def split: prod.splits)

lemma attemptAssignment_Inl:
  "fst (attemptAssignment rnd k ps cs) = Inl e \<Longrightarrow> \<exists>g \<in> set ps. e = NoValidReceiver (name g)"
  by (auto simp: attemptAssignment_def Let_def split: prod.splits dest: assign_givers_Inl)

lemma attemptAssignment_Inr:
  assumes "fst (attemptAssignment rnd k ps cs) = Inr A"
  shows "\<exists>vs. mset vs = mset ps \<and> A = map2 pair_up ps vs \<and>
          list_all2 (\<lambda>g v. id' g \<noteq> id' v \<and> check_constraints g v cs) ps vs"
proof -
  obtain rs k' where s: "shuffle rnd k ps = (rs, k')" by (cases "shuffle rnd k ps")
  have m: "mset rs = mset ps" using shuffle_mset[of rnd k ps] s by simp
  from assms s have "assign_givers cs ps rs [] = Inr A"
    by (simp add: attemptAssignment_def)
  from assign_givers_Inr[OF this] obtain vs where vs: "length vs = length ps" "mset vs \<subseteq># mset rs"
    "A = map2 pair_up ps vs"
    "list_all2 (\<lambda>g v. id' g \<noteq> id' v \<and> check_constraints g v cs) ps vs" by auto
  have "size (mset vs) = size (mset rs)" using vs(1) m by (metis size_mset)
  with vs(2) have "mset vs = mset rs"
    by (metis mset_subset_size nat_less_le subset_mset.le_imp_less_or_eq)
  with m vs show ?thesis by auto
qed

text \<open>The loop, as the first attempt that succeeds or the fallback.\<close>

lemma generate_loop_all_fail:
  assumes "attempts < maxAttempts"
    and "\<forall>j < maxAttempts - attempts. \<exists>e. fst (attemptAssignment rnd (k + j * (length ps - 1)) ps cs) = Inl e"
  shows "generate_loop rt rnd ps cs k attempts =
           map_sum (\<lambda>e. e) (encryptAssignments rt)
             (fst (attemptAssignment rnd (k + (maxAttempts - attempts) * (length ps - 1)) ps []))"
  using assms
proof (induction rt rnd ps cs k attempts rule: generate_loop.induct)
  case (1 rt rnd ps cs k attempts)
  from "1.prems"(2)[rule_format, of 0] "1.prems"(1)
  obtain e where e: "fst (attemptAssignment rnd k ps cs) = Inl e" by auto
  obtain k' where a: "attemptAssignment rnd k ps cs = (Inl e, k')"
    using e by (cases "attemptAssignment rnd k ps cs") auto
  have k': "k' = k + (length ps - 1)" using attemptAssignment_cursor[of rnd k ps cs] a by simp
  show ?case
  proof (cases "attempts + 1 \<ge> maxAttempts")
    case True
    with "1.prems"(1) have m: "maxAttempts - attempts = 1" by simp
    show ?thesis
      apply (subst generate_loop.simps)
      using "1.prems"(1) a True m k'
      by (auto split: sum.splits prod.splits simp: map_sum_def)
  next
    case False
    have lt: "attempts + 1 < maxAttempts" using False by simp
    have hyp: "\<forall>j < maxAttempts - (attempts + 1).
        \<exists>e. fst (attemptAssignment rnd (k' + j * (length ps - 1)) ps cs) = Inl e"
    proof (intro allI impI)
      fix j assume "j < maxAttempts - (attempts + 1)"
      then have "Suc j < maxAttempts - attempts" by simp
      from "1.prems"(2)[rule_format, OF this] show
        "\<exists>e. fst (attemptAssignment rnd (k' + j * (length ps - 1)) ps cs) = Inl e"
        by (simp add: k' add.assoc)
    qed
    have "generate_loop rt rnd ps cs k' (attempts + 1) =
           map_sum (\<lambda>e. e) (encryptAssignments rt)
             (fst (attemptAssignment rnd (k' + (maxAttempts - (attempts + 1)) * (length ps - 1)) ps []))"
      using "1.IH"[OF "1.prems"(1) a[symmetric] refl False lt hyp] .
    moreover have "k' + (maxAttempts - (attempts + 1)) * (length ps - 1)
         = k + (maxAttempts - attempts) * (length ps - 1)"
    proof -
      have "maxAttempts - attempts = Suc (maxAttempts - (attempts + 1))" using lt by simp
      then show ?thesis by (simp add: k')
    qed
    ultimately show ?thesis
      apply (subst generate_loop.simps)
      using "1.prems"(1) a False by simp
  qed
qed


lemma generate_loop_success:
  assumes "j < maxAttempts - attempts"
    and "\<forall>i < j. \<exists>e. fst (attemptAssignment rnd (k + i * (length ps - 1)) ps cs) = Inl e"
    and "fst (attemptAssignment rnd (k + j * (length ps - 1)) ps cs) = Inr A"
  shows "generate_loop rt rnd ps cs k attempts = Inr (encryptAssignments rt A)"
  using assms
proof (induction j arbitrary: k attempts)
  case 0
  then obtain k' where "attemptAssignment rnd k ps cs = (Inr A, k')"
    by (cases "attemptAssignment rnd k ps cs") auto
  with 0 show ?case by (subst generate_loop.simps) simp
next
  case (Suc j)
  from Suc.prems(2)[rule_format, of 0] obtain e where "fst (attemptAssignment rnd k ps cs) = Inl e"
    by auto
  then obtain k' where a: "attemptAssignment rnd k ps cs = (Inl e, k')"
    by (cases "attemptAssignment rnd k ps cs") auto
  have k': "k' = k + (length ps - 1)" using attemptAssignment_cursor[of rnd k ps cs] a by simp
  have lt: "attempts + 1 < maxAttempts" "attempts < maxAttempts" using Suc.prems(1) by simp_all
  have "generate_loop rt rnd ps cs k' (attempts + 1) = Inr (encryptAssignments rt A)"
  proof (rule Suc.IH)
    show "j < maxAttempts - (attempts + 1)" using Suc.prems(1) by simp
    show "\<forall>i<j. \<exists>e. fst (attemptAssignment rnd (k' + i * (length ps - 1)) ps cs) = Inl e"
    proof (intro allI impI)
      fix i assume "i < j"
      then have "Suc i < Suc j" by simp
      from Suc.prems(2)[rule_format, OF this]
      show "\<exists>e. fst (attemptAssignment rnd (k' + i * (length ps - 1)) ps cs) = Inl e"
        by (simp add: k' add.assoc)
    qed
    show "fst (attemptAssignment rnd (k' + j * (length ps - 1)) ps cs) = Inr A"
      using Suc.prems(3) by (simp add: k' add.assoc)
  qed
  then show ?case
    apply (subst generate_loop.simps)
    using a lt by simp
qed

text \<open>A token that is returned encrypts the result of an attempt.\<close>

lemma generate_loop_Inr:
  assumes "generate_loop rt rnd ps cs k attempts = Inr token"
  shows "\<exists>A k' cs'. fst (attemptAssignment rnd k' ps cs') = Inr A \<and> token = encryptAssignments rt A"
proof -
  have lt: "attempts < maxAttempts"
    using assms by (subst (asm) generate_loop.simps) (simp split: if_splits)
  let ?d = "length ps - 1"
  show ?thesis
  proof (cases "\<exists>j < maxAttempts - attempts. \<exists>A. fst (attemptAssignment rnd (k + j * ?d) ps cs) = Inr A")
    case True
    define P where "P j \<longleftrightarrow> j < maxAttempts - attempts \<and> (\<exists>A. fst (attemptAssignment rnd (k + j * ?d) ps cs) = Inr A)" for j
    from True have "\<exists>j. P j" by (auto simp: P_def)
    then obtain j where j: "P j" "\<forall>i<j. \<not> P i"
      using exists_least_iff[of P] by blast
    from j(1) obtain A where A: "j < maxAttempts - attempts"
      "fst (attemptAssignment rnd (k + j * ?d) ps cs) = Inr A" by (auto simp: P_def)
    have "\<forall>i<j. \<exists>e. fst (attemptAssignment rnd (k + i * ?d) ps cs) = Inl e"
    proof (intro allI impI)
      fix i assume i: "i < j"
      with j(2) A(1) have "\<not> (\<exists>A. fst (attemptAssignment rnd (k + i * ?d) ps cs) = Inr A)"
        by (auto simp: P_def)
      then show "\<exists>e. fst (attemptAssignment rnd (k + i * ?d) ps cs) = Inl e"
        by (cases "fst (attemptAssignment rnd (k + i * ?d) ps cs)") auto
    qed
    from generate_loop_success[OF A(1) this A(2), of rt] assms A(2) show ?thesis by auto
  next
    case False
    then have "\<forall>j < maxAttempts - attempts. \<exists>e. fst (attemptAssignment rnd (k + j * ?d) ps cs) = Inl e"
      by (metis sum.exhaust)
    from generate_loop_all_fail[OF lt this, of rt] assms
    show ?thesis
      by (cases "fst (attemptAssignment rnd (k + (maxAttempts - attempts) * ?d) ps [])") auto
  qed
qed

lemma generateAssignments_Inr:
  assumes "generateAssignments rt rnd ps cs = Inr token"
  shows "\<exists>A k cs'. fst (attemptAssignment rnd k ps cs') = Inr A \<and> token = encryptAssignments rt A"
  using assms generate_loop_Inr[of rt rnd ps cs 0 0 token]
  by (simp add: generateAssignments_def split: if_splits)

section \<open>Lemmas: a successful attempt is a derangement\<close>

lemma count_giver_mset: "count_giver A i = count (mset (map giverId A)) i"
  by (induction A) (auto simp: count_giver_def)

lemma count_receiver_mset: "count_receiver A i = count (mset (map receiverId A)) i"
  by (induction A) (auto simp: count_receiver_def)

lemma map_giverId_pair_up: "length vs = length ps \<Longrightarrow> map giverId (map2 pair_up ps vs) = map id' ps"
  by (induction ps vs rule: list_induct2') (auto simp: pair_up_def)

lemma map_receiverId_pair_up: "length vs = length ps \<Longrightarrow> map receiverId (map2 pair_up ps vs) = map id' vs"
  by (induction ps vs rule: list_induct2') (auto simp: pair_up_def)

lemma attempt_givers:
  assumes "fst (attemptAssignment rnd k ps cs) = Inr A"
  shows "map giverId A = map id' ps"
proof -
  from attemptAssignment_Inr[OF assms] obtain vs where vs: "mset vs = mset ps" "A = map2 pair_up ps vs"
    by blast
  from vs(1) have "length vs = length ps" by (metis size_mset)
  then show ?thesis by (simp only: vs(2) map_giverId_pair_up)
qed

lemma attempt_valid_derangement:
  assumes "fst (attemptAssignment rnd k ps cs) = Inr A" and d: "distinct (map id' ps)"
  shows "valid_derangement ps A"
proof -
  from attemptAssignment_Inr[OF assms(1)] obtain vs where vs: "mset vs = mset ps" "A = map2 pair_up ps vs"
    "list_all2 (\<lambda>g v. id' g \<noteq> id' v \<and> check_constraints g v cs) ps vs"
    by blast
  from vs(1) have len: "length vs = length ps" by (metis size_mset)
  have g: "map giverId A = map id' ps" by (simp only: vs(2) map_giverId_pair_up[OF len])
  have "mset (map receiverId A) = mset (map id' vs)"
    by (simp only: vs(2) map_receiverId_pair_up[OF len])
  also have "\<dots> = mset (map id' ps)" using vs(1) by (metis mset_map)
  finally have r: "mset (map receiverId A) = mset (map id' ps)" .
  have one: "count (mset (map id' ps)) (id' p) = 1" if "p \<in> set ps" for p
    using d that by (simp add: distinct_count_atmost_1)
  have c: "list_all (\<lambda>p. count_giver A (id' p) = 1 \<and> count_receiver A (id' p) = 1) ps"
    unfolding list_all_iff count_giver_mset count_receiver_mset g r using one by simp
  have "\<forall>a \<in> set (map2 pair_up ps vs). giverId a \<noteq> receiverId a"
    using vs(3) by (induction ps vs rule: list_all2_induct) (auto simp: pair_up_def)
  then have s: "list_all (\<lambda>a. giverId a \<noteq> receiverId a) A"
    unfolding list_all_iff vs(2) .
  from c s show ?thesis by (simp add: valid_derangement_def)
qed

lemma cipher_roundtrip_demo: "cipher_roundtrip demo_runtime"
  by (simp add: cipher_roundtrip_def demo_runtime_def)

section \<open>Claims about the assignment engine\<close>

text \<open>
  Claim C1. For a participant list of at least two participants (their ids, the primary
  keys of the data model, pairwise distinct) and any constraint list: if
  \<^verbatim>\<open>generateAssignments\<close> returns a token, the token decodes to an assignment list in
  which every participant's id is the giver of exactly one assignment and the receiver
  of exactly one, and no assignment has its giver as its receiver. The token may come
  from any of the hundred attempts or from the fallback attempt.
\<close>

theorem generateAssignments_valid_derangement:
  assumes "cipher_roundtrip rt"
    and "distinct (map id' participants)"
    and "2 \<le> length participants"
    and "generateAssignments rt rnd participants constraints = Inr token"
  shows "\<exists>A. decryptAssignments rt token = Inr (js_of_assignments A) \<and>
             valid_derangement participants A"
proof -
  from generateAssignments_Inr[OF assms(4)] obtain A k cs'
    where A: "fst (attemptAssignment rnd k participants cs') = Inr A"
      and t: "token = encryptAssignments rt A" by blast
  have "decryptAssignments rt token = Inr (js_of_assignments A)"
    unfolding t by (rule decrypt_encrypt[OF assms(1)])
  moreover have "valid_derangement participants A"
    by (rule attempt_valid_derangement[OF A assms(2)])
  ultimately show ?thesis by blast
qed

text \<open>The run of C1 on three participants with the random supply \<open>0, 1, 2, ...\<close>.\<close>

theorem generateAssignments_valid_derangement_witness:
  "generateAssignments demo_runtime (\<lambda>k. k) [ann, bob, cyd] []
     = Inr (encryptAssignments demo_runtime [gives ann cyd, gives bob ann, gives cyd bob]) \<and>
   (\<exists>A. decryptAssignments demo_runtime
           (encryptAssignments demo_runtime [gives ann cyd, gives bob ann, gives cyd bob])
         = Inr (js_of_assignments A) \<and>
        valid_derangement [ann, bob, cyd] A)"
proof -
  have h2: "distinct (map id' [ann, bob, cyd])"
    by (simp add: ann_def bob_def cyd_def person_def)
  have h3: "2 \<le> length [ann, bob, cyd]" by simp
  have h4: "generateAssignments demo_runtime (\<lambda>k. k) [ann, bob, cyd] []
     = Inr (encryptAssignments demo_runtime [gives ann cyd, gives bob ann, gives cyd bob])"
    by code_simp
  from generateAssignments_valid_derangement[OF cipher_roundtrip_demo h2 h3 h4] h4
  show ?thesis by simp
qed

lemma as_assignments_js: "as_assignments (js_of_assignments A) = Some A"
  by (induction A) (simp_all add: js_of_assignments_def js_of_assignment_def)

text \<open>
  Claim C10. Whenever \<^verbatim>\<open>generateAssignments\<close> returns a token, the decoded assignment
  list has the length of the participant list, and for every index \<open>i\<close> the giver of
  the \<open>i\<close>-th assignment is the \<open>i\<close>-th participant: only the receivers are shuffled.
\<close>

theorem generateAssignments_keeps_giver_order:
  assumes "cipher_roundtrip rt"
    and "generateAssignments rt rnd participants constraints = Inr token"
  shows "\<exists>A. decryptAssignments rt token = Inr (js_of_assignments A) \<and>
             length A = length participants \<and>
             (\<forall>i < length participants. giverId (A ! i) = id' (participants ! i))"
proof -
  from generateAssignments_Inr[OF assms(2)] obtain A k cs'
    where A: "fst (attemptAssignment rnd k participants cs') = Inr A"
      and t: "token = encryptAssignments rt A" by blast
  have d: "decryptAssignments rt token = Inr (js_of_assignments A)"
    unfolding t by (rule decrypt_encrypt[OF assms(1)])
  have g: "map giverId A = map id' participants" by (rule attempt_givers[OF A])
  then have len: "length A = length participants" by (metis length_map)
  have "giverId (A ! i) = id' (participants ! i)" if "i < length participants" for i
  proof -
    have "giverId (A ! i) = map giverId A ! i" using that len by simp
    also have "\<dots> = id' (participants ! i)" unfolding g using that by simp
    finally show ?thesis .
  qed
  with d len show ?thesis by blast
qed

text \<open>The run of C10 on four participants and one excluded couple.\<close>

theorem generateAssignments_keeps_giver_order_witness:
  "generateAssignments demo_runtime (\<lambda>k. 2 * k + 1) [ann, bob, cyd, dee] [couple ''Ann'' ''Bob'']
     = Inr (encryptAssignments demo_runtime [gives ann cyd, gives bob dee, gives cyd ann, gives dee bob]) \<and>
   (\<exists>A. decryptAssignments demo_runtime
           (encryptAssignments demo_runtime [gives ann cyd, gives bob dee, gives cyd ann, gives dee bob])
         = Inr (js_of_assignments A) \<and>
        length A = length [ann, bob, cyd, dee] \<and>
        (\<forall>i < length [ann, bob, cyd, dee]. giverId (A ! i) = id' ([ann, bob, cyd, dee] ! i)))"
proof -
  have h: "generateAssignments demo_runtime (\<lambda>k. 2 * k + 1) [ann, bob, cyd, dee] [couple ''Ann'' ''Bob'']
     = Inr (encryptAssignments demo_runtime [gives ann cyd, gives bob dee, gives cyd ann, gives dee bob])"
    by code_simp
  from generateAssignments_keeps_giver_order[OF cipher_roundtrip_demo h] h
  show ?thesis by blast
qed

section \<open>Lemmas: the outcome of the retry loop\<close>

lemma generate_loop_cases:
  assumes "attempts < maxAttempts"
  shows "(\<exists>j A. j < maxAttempts - attempts \<and>
            fst (attemptAssignment rnd (k + j * (length ps - 1)) ps cs) = Inr A \<and>
            generate_loop rt rnd ps cs k attempts = Inr (encryptAssignments rt A)) \<or>
         ((\<forall>j < maxAttempts - attempts.
              \<exists>e. fst (attemptAssignment rnd (k + j * (length ps - 1)) ps cs) = Inl e) \<and>
          generate_loop rt rnd ps cs k attempts =
            map_sum (\<lambda>e. e) (encryptAssignments rt)
              (fst (attemptAssignment rnd (k + (maxAttempts - attempts) * (length ps - 1)) ps [])))"
proof -
  let ?d = "length ps - 1"
  show ?thesis
  proof (cases "\<exists>j < maxAttempts - attempts. \<exists>A. fst (attemptAssignment rnd (k + j * ?d) ps cs) = Inr A")
    case True
    define P where "P j \<longleftrightarrow> j < maxAttempts - attempts \<and> (\<exists>A. fst (attemptAssignment rnd (k + j * ?d) ps cs) = Inr A)" for j
    from True have "\<exists>j. P j" by (auto simp: P_def)
    then obtain j where j: "P j" "\<forall>i<j. \<not> P i"
      using exists_least_iff[of P] by blast
    from j(1) obtain A where A: "j < maxAttempts - attempts"
      "fst (attemptAssignment rnd (k + j * ?d) ps cs) = Inr A" by (auto simp: P_def)
    have "\<forall>i<j. \<exists>e. fst (attemptAssignment rnd (k + i * ?d) ps cs) = Inl e"
    proof (intro allI impI)
      fix i assume i: "i < j"
      with j(2) A(1) have "\<not> (\<exists>A. fst (attemptAssignment rnd (k + i * ?d) ps cs) = Inr A)"
        by (auto simp: P_def)
      then show "\<exists>e. fst (attemptAssignment rnd (k + i * ?d) ps cs) = Inl e"
        by (cases "fst (attemptAssignment rnd (k + i * ?d) ps cs)") auto
    qed
    from generate_loop_success[OF A(1) this A(2), of rt] A show ?thesis by blast
  next
    case False
    then have f: "\<forall>j < maxAttempts - attempts. \<exists>e. fst (attemptAssignment rnd (k + j * ?d) ps cs) = Inl e"
      by (metis sum.exhaust)
    from generate_loop_all_fail[OF assms f, of rt] f show ?thesis by blast
  qed
qed

lemma generateAssignments_cases:
  assumes "2 \<le> length ps"
  shows "(\<exists>j A. j < maxAttempts \<and>
            fst (attemptAssignment rnd (attempt_cursor ps j) ps cs) = Inr A \<and>
            generateAssignments rt rnd ps cs = Inr (encryptAssignments rt A)) \<or>
         ((\<forall>j < maxAttempts. \<exists>e. fst (attemptAssignment rnd (attempt_cursor ps j) ps cs) = Inl e) \<and>
          generateAssignments rt rnd ps cs =
            map_sum (\<lambda>e. e) (encryptAssignments rt)
              (fst (attemptAssignment rnd (attempt_cursor ps maxAttempts) ps [])))"
proof -
  have m: "0 < maxAttempts" by (simp add: maxAttempts_def)
  have g: "generateAssignments rt rnd ps cs = generate_loop rt rnd ps cs 0 0"
    using assms by (simp add: generateAssignments_def)
  from generate_loop_cases[OF m, of rnd 0 ps cs rt] show ?thesis
    unfolding g attempt_cursor_def by simp
qed

lemma check_constraints_no_match:
  "check_constraints g v cs \<Longrightarrow> c \<in> set cs \<Longrightarrow> \<not> matches_exclusion g v c"
  by (induction cs)
     (auto simp: matches_exclusion_def split: ConstraintType.splits option.splits if_splits)

lemma attempt_respects_exclusions:
  assumes "fst (attemptAssignment rnd k ps cs) = Inr A" and d: "distinct (map id' ps)"
  shows "respects_exclusions ps cs A"
proof -
  from attemptAssignment_Inr[OF assms(1)] obtain vs where vs: "mset vs = mset ps" "A = map2 pair_up ps vs"
    "list_all2 (\<lambda>g v. id' g \<noteq> id' v \<and> check_constraints g v cs) ps vs"
    by blast
  have inj: "inj_on id' (set ps)" using d by (simp add: distinct_map)
  have sv: "set vs = set ps" using vs(1) by (metis set_mset_mset)
  have "\<not> violates ps cs a" if a: "a \<in> set A" for a
  proof
    assume "violates ps cs a"
    then obtain g r c where grc: "g \<in> set ps" "r \<in> set ps" "id' g = giverId a" "id' r = receiverId a"
      "c \<in> set cs" "matches_exclusion g r c"
      by (auto simp: violates_def list_ex_iff)
    from a vs(2) obtain g0 v0 where gv: "(g0, v0) \<in> set (zip ps vs)" "a = pair_up g0 v0" by auto
    from gv(1) have in0: "g0 \<in> set ps" "v0 \<in> set vs" by (auto dest: set_zip_leftD set_zip_rightD)
    from gv(1) vs(3) have ok: "check_constraints g0 v0 cs"
      by (auto simp: list_all2_iff)
    have "g = g0" using inj grc(1,3) in0(1) gv(2) by (auto simp: pair_up_def dest: inj_onD)
    moreover have "r = v0" using inj grc(2,4) in0(2) sv gv(2) by (auto simp: pair_up_def dest: inj_onD)
    ultimately show False using check_constraints_no_match[OF ok grc(5)] grc(6) by simp
  qed
  then show ?thesis by (auto simp: respects_exclusions_def list_ex_iff)
qed

text \<open>
  The outcomes of \<^verbatim>\<open>generateAssignments\<close> as the code is written. It raises the
  insufficient-participants error exactly when there are fewer than two participants.
  With two or more it returns a token that decodes to a valid derangement, unless all
  hundred attempts failed and the fallback attempt, run with no constraints, failed too:
  then the \<^verbatim>\<open>No valid receiver\<close> error of the fallback attempt leaves the function.
\<close>

theorem generateAssignments_outcomes:
  assumes "cipher_roundtrip rt" and "distinct (map id' participants)"
  shows "(generateAssignments rt rnd participants constraints = Inl InsufficientParticipants
            \<longleftrightarrow> length participants < 2) \<and>
         (2 \<le> length participants \<longrightarrow>
            (\<exists>token A. generateAssignments rt rnd participants constraints = Inr token \<and>
                decryptAssignments rt token = Inr (js_of_assignments A) \<and>
                valid_derangement participants A) \<or>
            (\<exists>g. g \<in> set participants \<and>
                generateAssignments rt rnd participants constraints = Inl (NoValidReceiver (name g)) \<and>
                (\<forall>i < maxAttempts. \<exists>e.
                   fst (attemptAssignment rnd (attempt_cursor participants i) participants constraints) = Inl e) \<and>
                fst (attemptAssignment rnd (attempt_cursor participants maxAttempts) participants [])
                  = Inl (NoValidReceiver (name g))))"
proof -
  let ?gen = "generateAssignments rt rnd participants constraints"
  have big: "(\<exists>token A. ?gen = Inr token \<and>
                decryptAssignments rt token = Inr (js_of_assignments A) \<and>
                valid_derangement participants A) \<or>
            (\<exists>g. g \<in> set participants \<and> ?gen = Inl (NoValidReceiver (name g)) \<and>
                (\<forall>i < maxAttempts. \<exists>e.
                   fst (attemptAssignment rnd (attempt_cursor participants i) participants constraints) = Inl e) \<and>
                fst (attemptAssignment rnd (attempt_cursor participants maxAttempts) participants [])
                  = Inl (NoValidReceiver (name g)))"
    if len: "2 \<le> length participants"
  proof -
    from generateAssignments_cases[OF len, of rnd constraints rt]
    consider (ok) j A where "fst (attemptAssignment rnd (attempt_cursor participants j) participants constraints) = Inr A"
        "?gen = Inr (encryptAssignments rt A)"
      | (fallback) "\<forall>j < maxAttempts. \<exists>e. fst (attemptAssignment rnd (attempt_cursor participants j) participants constraints) = Inl e"
        "?gen = map_sum (\<lambda>e. e) (encryptAssignments rt)
              (fst (attemptAssignment rnd (attempt_cursor participants maxAttempts) participants []))"
      by blast
    then show ?thesis
    proof cases
      case ok
      from decrypt_encrypt[OF assms(1)] attempt_valid_derangement[OF ok(1) assms(2)] ok(2)
      show ?thesis by blast
    next
      case fallback
      show ?thesis
      proof (cases "fst (attemptAssignment rnd (attempt_cursor participants maxAttempts) participants [])")
        case (Inl e)
        from attemptAssignment_Inl[OF Inl] obtain g where "g \<in> set participants" "e = NoValidReceiver (name g)"
          by blast
        with fallback Inl show ?thesis by auto
      next
        case (Inr A)
        from decrypt_encrypt[OF assms(1)] attempt_valid_derangement[OF Inr assms(2)] fallback(2) Inr
        show ?thesis by auto
      qed
    qed
  qed
  have iff: "?gen = Inl InsufficientParticipants \<longleftrightarrow> length participants < 2"
  proof (cases "length participants < 2")
    case True
    then show ?thesis by (simp add: generateAssignments_def)
  next
    case False
    then have "2 \<le> length participants" by simp
    from big[OF this] have "?gen \<noteq> Inl InsufficientParticipants" by auto
    with False show ?thesis by simp
  qed
  from iff big show ?thesis by blast
qed

text \<open>These outcomes on one, and on three, participants.\<close>

theorem generateAssignments_fallback_error_witness:
  "(generateAssignments demo_runtime (\<lambda>k. 5) [ann, bob, cyd] [] = Inl InsufficientParticipants
      \<longleftrightarrow> length [ann, bob, cyd] < 2) \<and>
   generateAssignments demo_runtime (\<lambda>k. 5) [ann] [] = Inl InsufficientParticipants \<and>
   (\<exists>token A. generateAssignments demo_runtime (\<lambda>k. k) [ann, bob, cyd] [] = Inr token \<and>
        decryptAssignments demo_runtime token = Inr (js_of_assignments A) \<and>
        valid_derangement [ann, bob, cyd] A)"
proof -
  have d: "distinct (map id' [ann, bob, cyd])"
    by (simp add: ann_def bob_def cyd_def person_def)
  have d1: "distinct (map id' [ann])" by simp
  have l: "2 \<le> length [ann, bob, cyd]" by simp
  have ok: "generateAssignments demo_runtime (\<lambda>k. k) [ann, bob, cyd] []
     = Inr (encryptAssignments demo_runtime [gives ann cyd, gives bob ann, gives cyd bob])"
    by code_simp
  note a = generateAssignments_outcomes[OF cipher_roundtrip_demo d, of "\<lambda>k. 5" "[]"]
  note b = generateAssignments_outcomes[OF cipher_roundtrip_demo d1, of "\<lambda>k. 5" "[]"]
  note c = generateAssignments_outcomes[OF cipher_roundtrip_demo d, of "\<lambda>k. k" "[]"]
  from a have 1: "generateAssignments demo_runtime (\<lambda>k. 5) [ann, bob, cyd] [] = Inl InsufficientParticipants
      \<longleftrightarrow> length [ann, bob, cyd] < 2" by blast
  from b have 2: "generateAssignments demo_runtime (\<lambda>k. 5) [ann] [] = Inl InsufficientParticipants"
    by simp
  from c l ok have 3: "\<exists>token A. generateAssignments demo_runtime (\<lambda>k. k) [ann, bob, cyd] [] = Inr token \<and>
        decryptAssignments demo_runtime token = Inr (js_of_assignments A) \<and>
        valid_derangement [ann, bob, cyd] A"
    by auto
  from 1 2 3 show ?thesis by blast
qed

text \<open>
  Claim C2. \<^verbatim>\<open>generateAssignments\<close> is to raise the insufficient-participants error
  and no other: a search that finds nothing is to end in the relaxed result. The loop
  catches the \<^verbatim>\<open>No valid receiver\<close> error of each of its hundred attempts, but its
  catch block runs the fallback attempt outside any try, and the same error of the
  fallback attempt reaches the caller. With Ann, Bob and Cyd, the couple Ann and Bob
  excluded and the random supply \<open>0, 1, 2, ...\<close>, every attempt fails on the exclusion
  and the fallback attempt, whose shuffle leaves the receivers in their order, pairs Ann
  with Bob and Bob with Ann and finds nobody for Cyd. With no constraint at all and a
  random supply that leaves the receivers in their order at every shuffle, the same
  happens.
\<close>

theorem generateAssignments_fallback_throws:
  "length [ann, bob, cyd] = 3 \<and>
   generateAssignments demo_runtime (\<lambda>k. k) [ann, bob, cyd] [couple ''Ann'' ''Bob'']
     = Inl (NoValidReceiver ''Cyd'') \<and>
   generateAssignments demo_runtime (\<lambda>k. 5) [ann, bob, cyd] [] = Inl (NoValidReceiver ''Cyd'')"
  by code_simp

text \<open>
  Claim C3, amended. If one of the hundred attempts made with the constraints succeeds,
  the token that is returned decodes to an assignment list in which no assignment joins
  two participants whose names are an excluded pair, in either direction.
\<close>

theorem generateAssignments_respects_exclusions:
  assumes "cipher_roundtrip rt"
    and "distinct (map id' participants)"
    and "generateAssignments rt rnd participants constraints = Inr token"
    and "i < maxAttempts"
    and "fst (attemptAssignment rnd (attempt_cursor participants i) participants constraints) = Inr A0"
  shows "\<exists>A. decryptAssignments rt token = Inr (js_of_assignments A) \<and>
             respects_exclusions participants constraints A"
proof -
  have len: "2 \<le> length participants"
    using assms(3) by (simp add: generateAssignments_def split: if_splits)
  from generateAssignments_cases[OF len, of rnd constraints rt] assms(4,5)
  obtain j A where A: "fst (attemptAssignment rnd (attempt_cursor participants j) participants constraints) = Inr A"
    "generateAssignments rt rnd participants constraints = Inr (encryptAssignments rt A)"
    by fastforce
  from A(2) assms(3) have t: "token = encryptAssignments rt A" by simp
  have "decryptAssignments rt token = Inr (js_of_assignments A)"
    unfolding t by (rule decrypt_encrypt[OF assms(1)])
  moreover have "respects_exclusions participants constraints A"
    by (rule attempt_respects_exclusions[OF A(1) assms(2)])
  ultimately show ?thesis by blast
qed

text \<open>The run of C3 on four participants with Cyd and Dee excluded.\<close>

theorem generateAssignments_respects_exclusions_witness:
  "generateAssignments demo_runtime (\<lambda>k. k * k) [ann, bob, cyd, dee] [couple ''Cyd'' ''Dee'']
     = Inr (encryptAssignments demo_runtime [gives ann cyd, gives bob dee, gives cyd bob, gives dee ann]) \<and>
   fst (attemptAssignment (\<lambda>k. k * k) (attempt_cursor [ann, bob, cyd, dee] 0) [ann, bob, cyd, dee]
          [couple ''Cyd'' ''Dee''])
     = Inr [gives ann cyd, gives bob dee, gives cyd bob, gives dee ann] \<and>
   (\<exists>A. decryptAssignments demo_runtime
           (encryptAssignments demo_runtime [gives ann cyd, gives bob dee, gives cyd bob, gives dee ann])
         = Inr (js_of_assignments A) \<and>
        respects_exclusions [ann, bob, cyd, dee] [couple ''Cyd'' ''Dee''] A)"
proof -
  have d: "distinct (map id' [ann, bob, cyd, dee])"
    by (simp add: ann_def bob_def cyd_def dee_def person_def)
  have g: "generateAssignments demo_runtime (\<lambda>k. k * k) [ann, bob, cyd, dee] [couple ''Cyd'' ''Dee'']
     = Inr (encryptAssignments demo_runtime [gives ann cyd, gives bob dee, gives cyd bob, gives dee ann])"
    by code_simp
  have i: "(0::nat) < maxAttempts" by (simp add: maxAttempts_def)
  have a: "fst (attemptAssignment (\<lambda>k. k * k) (attempt_cursor [ann, bob, cyd, dee] 0) [ann, bob, cyd, dee]
          [couple ''Cyd'' ''Dee''])
     = Inr [gives ann cyd, gives bob dee, gives cyd bob, gives dee ann]"
    by code_simp
  from generateAssignments_respects_exclusions[OF cipher_roundtrip_demo d g i a] g a
  show ?thesis by blast
qed

text \<open>
  Claim C3 as stated fails. With Cyd and Dee excluded, Ann to Cyd, Bob to Dee, Cyd to Bob,
  Dee to Ann is a valid derangement that respects the exclusion. With a random supply
  that shuffles the receivers to Bob, Ann, Dee, Cyd every time, all hundred attempts
  fail at Cyd, and the fallback returns Ann to Bob, Bob to Ann, Cyd to Dee, Dee to Cyd.
\<close>

theorem generateAssignments_relaxed_counterexample:
  "valid_derangement [ann, bob, cyd, dee] [gives ann cyd, gives bob dee, gives cyd bob, gives dee ann] \<and>
   respects_exclusions [ann, bob, cyd, dee] [couple ''Cyd'' ''Dee'']
     [gives ann cyd, gives bob dee, gives cyd bob, gives dee ann] \<and>
   generateAssignments demo_runtime (\<lambda>k. 2) [ann, bob, cyd, dee] [couple ''Cyd'' ''Dee'']
     = Inr (encryptAssignments demo_runtime [gives ann bob, gives bob ann, gives cyd dee, gives dee cyd]) \<and>
   decryptAssignments demo_runtime
       (encryptAssignments demo_runtime [gives ann bob, gives bob ann, gives cyd dee, gives dee cyd])
     = Inr (js_of_assignments [gives ann bob, gives bob ann, gives cyd dee, gives dee cyd]) \<and>
   violates [ann, bob, cyd, dee] [couple ''Cyd'' ''Dee''] (gives cyd dee)"
proof -
  have 1: "valid_derangement [ann, bob, cyd, dee] [gives ann cyd, gives bob dee, gives cyd bob, gives dee ann]"
    by code_simp
  have 2: "respects_exclusions [ann, bob, cyd, dee] [couple ''Cyd'' ''Dee'']
     [gives ann cyd, gives bob dee, gives cyd bob, gives dee ann]"
    by code_simp
  have 3: "generateAssignments demo_runtime (\<lambda>k. 2) [ann, bob, cyd, dee] [couple ''Cyd'' ''Dee'']
     = Inr (encryptAssignments demo_runtime [gives ann bob, gives bob ann, gives cyd dee, gives dee cyd])"
    by code_simp
  have 4: "decryptAssignments demo_runtime
       (encryptAssignments demo_runtime [gives ann bob, gives bob ann, gives cyd dee, gives dee cyd])
     = Inr (js_of_assignments [gives ann bob, gives bob ann, gives cyd dee, gives dee cyd])"
    by (rule decrypt_encrypt[OF cipher_roundtrip_demo])
  have 5: "violates [ann, bob, cyd, dee] [couple ''Cyd'' ''Dee''] (gives cyd dee)"
    by code_simp
  from 1 2 3 4 5 show ?thesis by blast
qed

text \<open>
  Claim C7. \<^verbatim>\<open>validateAssignments\<close> is to hold exactly when every participant is the
  giver of exactly one assignment and the receiver of exactly one. It compares sets, so
  a list that repeats an assignment passes: for the participants Ann and Bob and the
  list Ann to Bob, Bob to Ann, Ann to Bob it returns true, although Ann gives twice and
  Bob receives twice.
\<close>

theorem validateAssignments_accepts_repeated_assignment:
  "validateAssignments [gives ann bob, gives bob ann, gives ann bob] [ann, bob] = True \<and>
   count_giver [gives ann bob, gives bob ann, gives ann bob] (id' ann) = 2 \<and>
   count_receiver [gives ann bob, gives bob ann, gives ann bob] (id' bob) = 2"
  by (simp add: validateAssignments_def count_giver_def count_receiver_def gives_def ann_def bob_def person_def)

section \<open>Claims about the encoder\<close>

text \<open>
  Claim C4. For every assignment list \<open>A\<close>, \<^verbatim>\<open>decryptAssignments(encryptAssignments(A))\<close>
  is \<open>A\<close>: the value that comes back is the array of \<^verbatim>\<open>{giverId, receiverId}\<close> objects
  of \<open>A\<close>, and its typed reading is \<open>A\<close> itself. The cipher is the library's; what is
  proved here is that the text \<^verbatim>\<open>JSON.stringify\<close> writes is read back by
  \<^verbatim>\<open>JSON.parse\<close>, for ids with quotes, backslashes and control characters too.
\<close>

theorem decrypt_encrypt_roundtrip:
  assumes "cipher_roundtrip rt"
  shows "decryptAssignments rt (encryptAssignments rt A) = Inr (js_of_assignments A) \<and>
         as_assignments (js_of_assignments A) = Some A"
  using decrypt_encrypt[OF assms] as_assignments_js by simp

text \<open>The round trip of C4 on an id that needs every kind of escape.\<close>

theorem decrypt_encrypt_roundtrip_witness:
  "decryptAssignments demo_runtime
     (encryptAssignments demo_runtime
        [\<lparr> giverId = ''a'' @ [CHR 0x22, CHR 0x5C, CHR 0x0A, CHR 0x01] @ ''b'', receiverId = '''' \<rparr>,
         gives bob ann])
   = Inr (js_of_assignments
        [\<lparr> giverId = ''a'' @ [CHR 0x22, CHR 0x5C, CHR 0x0A, CHR 0x01] @ ''b'', receiverId = '''' \<rparr>,
         gives bob ann]) \<and>
   as_assignments (js_of_assignments
        [\<lparr> giverId = ''a'' @ [CHR 0x22, CHR 0x5C, CHR 0x0A, CHR 0x01] @ ''b'', receiverId = '''' \<rparr>,
         gives bob ann])
   = Some [\<lparr> giverId = ''a'' @ [CHR 0x22, CHR 0x5C, CHR 0x0A, CHR 0x01] @ ''b'', receiverId = '''' \<rparr>,
         gives bob ann]"
  using decrypt_encrypt_roundtrip[OF cipher_roundtrip_demo] by blast

text \<open>
  Claim C5, amended. \<^verbatim>\<open>decryptAssignments\<close> raises no error but
  \<^verbatim>\<open>Invalid assignment data\<close>, and raises it exactly when the decryption throws, the
  bytes are not UTF-8, or the plaintext is not JSON. A plaintext that is JSON comes back
  as the value \<^verbatim>\<open>JSON.parse\<close> built, whatever its shape.
\<close>

theorem decryptAssignments_outcomes:
  "(\<forall>e. decryptAssignments rt token = Inl e \<longrightarrow> e = InvalidAssignmentData) \<and>
   (decryptAssignments rt token = Inl InvalidAssignmentData \<longleftrightarrow>
      (\<forall>w s. AES_decrypt rt token (ENCRYPTION_KEY rt) = Some w \<longrightarrow>
             Utf8_stringify rt w = Some s \<longrightarrow> JSON_parse s = None)) \<and>
   (\<forall>w s v. AES_decrypt rt token (ENCRYPTION_KEY rt) = Some w \<longrightarrow>
            Utf8_stringify rt w = Some s \<longrightarrow> JSON_parse s = Some v \<longrightarrow>
            decryptAssignments rt token = Inr v)"
  by (auto simp: decryptAssignments_def split: option.splits)

lemma demo_key: "ENCRYPTION_KEY demo_runtime = ''fallback-secret-key''"
  by (simp add: ENCRYPTION_KEY_def demo_runtime_def)

text \<open>The outcomes of C5 on a string that is no token, on a truncated text and on an array.\<close>

theorem decryptAssignments_outcomes_witness:
  "decryptAssignments demo_runtime ''not a token'' = Inl InvalidAssignmentData \<and>
   decryptAssignments demo_runtime (''fallback-secret-key'' @ ''[1,'') = Inl InvalidAssignmentData \<and>
   decryptAssignments demo_runtime (''fallback-secret-key'' @ ''[true, null]'')
     = Inr (JArray [JBool True, JNull])"
proof -
  note t = decryptAssignments_outcomes[of demo_runtime]
  have a: "AES_decrypt demo_runtime ''not a token'' (ENCRYPTION_KEY demo_runtime) = None"
    by (simp add: demo_key) (simp add: demo_runtime_def)
  have b: "AES_decrypt demo_runtime (''fallback-secret-key'' @ ''[1,'') (ENCRYPTION_KEY demo_runtime) = Some ''[1,''"
    by (simp add: demo_key) (simp add: demo_runtime_def)
  have b': "JSON_parse ''[1,'' = None" by code_simp
  have c: "AES_decrypt demo_runtime (''fallback-secret-key'' @ ''[true, null]'') (ENCRYPTION_KEY demo_runtime)
      = Some ''[true, null]''"
    by (simp add: demo_key) (simp add: demo_runtime_def)
  have c': "JSON_parse ''[true, null]'' = Some (JArray [JBool True, JNull])" by code_simp
  have u: "Utf8_stringify demo_runtime = Some" by (simp add: demo_runtime_def)
  have 1: "decryptAssignments demo_runtime ''not a token'' = Inl InvalidAssignmentData"
    using t[of "''not a token''"] a by simp
  have 2: "decryptAssignments demo_runtime (''fallback-secret-key'' @ ''[1,'') = Inl InvalidAssignmentData"
    using t[of "''fallback-secret-key'' @ ''[1,''"] b b' u by simp
  have 3: "decryptAssignments demo_runtime (''fallback-secret-key'' @ ''[true, null]'')
     = Inr (JArray [JBool True, JNull])"
    using t[of "''fallback-secret-key'' @ ''[true, null]''"] c c' u by simp
  from 1 2 3 show ?thesis by blast
qed

text \<open>
  Claim C5 as stated fails: the token that encrypts the text \<^verbatim>\<open>42\<close> decrypts with no
  error to the number 42, which is not a list of assignments.
\<close>

theorem decryptAssignments_unchecked_shape_counterexample:
  "decryptAssignments demo_runtime (AES_encrypt demo_runtime ''42'' (ENCRYPTION_KEY demo_runtime))
     = Inr (JNumber ''42'') \<and>
   as_assignments (JNumber ''42'') = None"
  by code_simp

lemma find_giver_js:
  "find_giver (map js_of_assignment A) pid
     = Inr (map_option js_of_assignment (find (\<lambda>a. giverId a = pid) A))"
  by (induction A) (simp_all add: js_of_assignment_def)

text \<open>
  Claim C6. \<^verbatim>\<open>getAssignmentForParticipant\<close> returns a value for every token and every
  participant id. On a token that decodes to an assignment list it returns the receiver
  of the first assignment whose giver is the participant, and \<^verbatim>\<open>null\<close> when there is
  none; when decoding fails it returns \<^verbatim>\<open>null\<close>.
\<close>

theorem getAssignmentForParticipant_never_throws:
  "(\<exists>v. getAssignmentForParticipant rt token participantId = Inr v) \<and>
   (\<forall>A. decryptAssignments rt token = Inr (js_of_assignments A) \<longrightarrow>
        getAssignmentForParticipant rt token participantId =
          Inr (case find (\<lambda>a. giverId a = participantId) A of
                 None \<Rightarrow> Val JNull
               | Some a \<Rightarrow> Val (JString (receiverId a)))) \<and>
   (\<forall>e. decryptAssignments rt token = Inl e \<longrightarrow>
        getAssignmentForParticipant rt token participantId = Inr (Val JNull))"
proof (intro conjI allI impI)
  show "\<exists>v. getAssignmentForParticipant rt token participantId = Inr v"
    by (simp add: getAssignmentForParticipant_def try_catch_def split: sum.splits option.splits)
next
  fix A assume d: "decryptAssignments rt token = Inr (js_of_assignments A)"
  show "getAssignmentForParticipant rt token participantId =
          Inr (case find (\<lambda>a. giverId a = participantId) A of
                 None \<Rightarrow> Val JNull
               | Some a \<Rightarrow> Val (JString (receiverId a)))"
    by (cases "find (\<lambda>a. giverId a = participantId) A")
       (simp_all add: getAssignmentForParticipant_def try_catch_def d js_of_assignments_def
          find_giver_js js_of_assignment_def)
next
  fix e assume "decryptAssignments rt token = Inl e"
  then show "getAssignmentForParticipant rt token participantId = Inr (Val JNull)"
    by (simp add: getAssignmentForParticipant_def try_catch_def)
qed

text \<open>The lookups of C6: a giver, an id that gives nothing, and a string that is no token.\<close>

theorem getAssignmentForParticipant_never_throws_witness:
  "getAssignmentForParticipant demo_runtime
      (encryptAssignments demo_runtime [gives ann cyd, gives bob ann, gives cyd bob]) (id' bob)
     = Inr (Val (JString (id' ann))) \<and>
   getAssignmentForParticipant demo_runtime
      (encryptAssignments demo_runtime [gives ann cyd, gives bob ann, gives cyd bob]) (id' dee)
     = Inr (Val JNull) \<and>
   getAssignmentForParticipant demo_runtime ''not a token'' (id' bob) = Inr (Val JNull)"
proof -
  let ?t = "encryptAssignments demo_runtime [gives ann cyd, gives bob ann, gives cyd bob]"
  have d: "decryptAssignments demo_runtime ?t
     = Inr (js_of_assignments [gives ann cyd, gives bob ann, gives cyd bob])"
    by (rule decrypt_encrypt[OF cipher_roundtrip_demo])
  have e: "decryptAssignments demo_runtime ''not a token'' = Inl InvalidAssignmentData"
    by code_simp
  have f1: "find (\<lambda>a. giverId a = id' bob) [gives ann cyd, gives bob ann, gives cyd bob] = Some (gives bob ann)"
    by code_simp
  have f2: "find (\<lambda>a. giverId a = id' dee) [gives ann cyd, gives bob ann, gives cyd bob] = None"
    by code_simp
  have 1: "getAssignmentForParticipant demo_runtime ?t (id' bob) = Inr (Val (JString (id' ann)))"
    using getAssignmentForParticipant_never_throws[of demo_runtime ?t "id' bob"] d f1
    by (simp add: gives_def)
  have 2: "getAssignmentForParticipant demo_runtime ?t (id' dee) = Inr (Val JNull)"
    using getAssignmentForParticipant_never_throws[of demo_runtime ?t "id' dee"] d f2
    by simp
  have 3: "getAssignmentForParticipant demo_runtime ''not a token'' (id' bob) = Inr (Val JNull)"
    using getAssignmentForParticipant_never_throws[of demo_runtime "''not a token''" "id' bob"] e
    by simp
  from 1 2 3 show ?thesis by blast
qed

section \<open>Lemmas: every clue of the pool passed the filter\<close>

lemma set_random_permutation: "set (random_permutation rnd k n xs) \<subseteq> set xs"
proof (induction n arbitrary: k xs)
  case 0
  then show ?case by simp
next
  case (Suc n)
  show ?case
  proof (cases "xs = []")
    case True
    then show ?thesis by simp
  next
    case False
    let ?i = "random_below rnd k (length xs)"
    have i: "?i < length xs" using False by (simp add: random_below_def)
    have sub: "set (take ?i xs @ drop (Suc ?i) xs) \<subseteq> set xs"
      using set_take_subset[of ?i xs] set_drop_subset[of "Suc ?i" xs] by auto
    have "set (random_permutation rnd (k + 1) n (take ?i xs @ drop (Suc ?i) xs)) \<subseteq> set xs"
      using Suc.IH[of "k + 1" "take ?i xs @ drop (Suc ?i) xs"] sub by blast
    moreover have "xs ! ?i \<in> set xs" using i by simp
    moreover have "random_permutation rnd k (Suc n) xs
        = xs ! ?i # random_permutation rnd (k + 1) n (take ?i xs @ drop (Suc ?i) xs)"
      using False by (simp add: Let_def)
    ultimately show ?thesis by simp
  qed
qed

lemma set_sort_random: "set (sort_random rnd k xs) \<subseteq> set xs"
  by (simp add: sort_random_def set_random_permutation)

lemma isClueObvious_gender:
  "clue_type c = Gender \<Longrightarrow> excludedPairsCount an > 0 \<Longrightarrow> male an + female an \<le> 4 \<Longrightarrow>
   isClueObvious c as pm an ex"
  by (simp add: isClueObvious_def Let_def)

lemma in_take_filter: "c \<in> set (take n (filter P xs)) \<Longrightarrow> P c"
  by (auto dest: in_set_takeD)

lemma backup_not_obvious:
  "c \<in> set (generateSmartBackupClues rt as pm an ex needed) \<Longrightarrow> \<not> isClueObvious c as pm an ex"
  unfolding generateSmartBackupClues_def Let_def
  by (drule in_take_filter) assumption


lemma clue_pool_unfold:
  assumes "generateSpecificPatternClues rnd 0 as (new_Map (map (\<lambda>p. (id' p, p)) ps)) = (sc, k)"
    and "sh = sort_random rnd k
           (filter (\<lambda>clue. \<not> isClueObvious clue as (new_Map (map (\<lambda>p. (id' p, p)) ps))
                       (analyzeParticipantDistribution ps ex) ex)
              (generateGenderGiftingClues as (new_Map (map (\<lambda>p. (id' p, p)) ps)) ex @
               generateYearGiftingClues as (new_Map (map (\<lambda>p. (id' p, p)) ps)) @ sc))"
  shows "clue_pool rt rnd as ps ex =
           (if length sh < 10
            then sh @ generateSmartBackupClues rt as (new_Map (map (\<lambda>p. (id' p, p)) ps))
                        (analyzeParticipantDistribution ps ex) ex (10 - length sh)
            else sh)"
  unfolding clue_pool_def Let_def assms(1) prod.case assms(2) ..


lemma in_filterD: "c \<in> set (filter P xs) \<Longrightarrow> P c"
  by simp

lemma clue_pool_not_obvious:
  assumes "c \<in> set (clue_pool rt rnd as ps ex)"
  shows "\<not> isClueObvious c as (new_Map (map (\<lambda>p. (id' p, p)) ps))
            (analyzeParticipantDistribution ps ex) ex"
proof -
  obtain sc k where s: "generateSpecificPatternClues rnd 0 as (new_Map (map (\<lambda>p. (id' p, p)) ps)) = (sc, k)"
    by (rule prod.exhaust)
  define sh where "sh = sort_random rnd k
           (filter (\<lambda>clue. \<not> isClueObvious clue as (new_Map (map (\<lambda>p. (id' p, p)) ps))
                       (analyzeParticipantDistribution ps ex) ex)
              (generateGenderGiftingClues as (new_Map (map (\<lambda>p. (id' p, p)) ps)) ex @
               generateYearGiftingClues as (new_Map (map (\<lambda>p. (id' p, p)) ps)) @ sc))"
  define backup where "backup = generateSmartBackupClues rt as (new_Map (map (\<lambda>p. (id' p, p)) ps))
                        (analyzeParticipantDistribution ps ex) ex (10 - length sh)"
  have pool: "clue_pool rt rnd as ps ex = (if length sh < 10 then sh @ backup else sh)"
    unfolding backup_def by (rule clue_pool_unfold[OF s sh_def])
  have "c \<in> set (if length sh < 10 then sh @ backup else sh)"
    using assms unfolding pool .
  then have "c \<in> set sh \<or> c \<in> set backup"
    by (cases "length sh < 10") simp_all
  then show ?thesis
  proof
    assume c: "c \<in> set sh"
    have "set sh \<subseteq> set (filter (\<lambda>clue. \<not> isClueObvious clue as (new_Map (map (\<lambda>p. (id' p, p)) ps))
                       (analyzeParticipantDistribution ps ex) ex)
              (generateGenderGiftingClues as (new_Map (map (\<lambda>p. (id' p, p)) ps)) ex @
               generateYearGiftingClues as (new_Map (map (\<lambda>p. (id' p, p)) ps)) @ sc))"
      unfolding sh_def by (rule set_sort_random)
    then have "c \<in> set (filter (\<lambda>clue. \<not> isClueObvious clue as (new_Map (map (\<lambda>p. (id' p, p)) ps))
                       (analyzeParticipantDistribution ps ex) ex)
              (generateGenderGiftingClues as (new_Map (map (\<lambda>p. (id' p, p)) ps)) ex @
               generateYearGiftingClues as (new_Map (map (\<lambda>p. (id' p, p)) ps)) @ sc))"
      using c by (rule subsetD)
    then show ?thesis by (rule in_filterD)
  next
    assume "c \<in> set backup"
    then show ?thesis unfolding backup_def by (rule backup_not_obvious)
  qed
qed


lemma demo_pool_types:
  "map clue_type
     (clue_pool demo_runtime (\<lambda>k. k) [gives ann cyd, gives bob dee, gives cyd bob, gives dee ann]
        [ann, bob, cyd, dee] [excluded ''Cyd'' ''Dee''])
   = [Year, Year, Year, Year, Year, Year, Specific]"
  by code_simp

lemma demo_decrypt:
  "decryptAssignments demo_runtime (encryptAssignments demo_runtime A) = Inr (js_of_assignments A)"
  by (rule decrypt_encrypt[OF cipher_roundtrip_demo])

section \<open>Claims about the clue engine\<close>

text \<open>
  Claim C8. For every token that decodes to an assignment list, every participant list
  and every exclusion list, \<^verbatim>\<open>generateClues\<close> (the variant with ten clues) returns a
  list, of at most ten clues; when fewer than ten clues are left after generation,
  filtering and backfill, it returns all of them and raises no error.
\<close>

theorem generateClues_at_most_ten:
  assumes "decryptAssignments rt token = Inr v"
    and "as_assignments v = Some assignments"
  shows "\<exists>clues. generateClues rt rnd token participants exclusions = Inr clues \<and>
           length clues \<le> 10 \<and>
           (length (clue_pool rt rnd assignments participants exclusions) < 10 \<longrightarrow>
              clues = clue_pool rt rnd assignments participants exclusions)"
proof -
  have g: "generateClues rt rnd token participants exclusions
      = Inr (take 10 (clue_pool rt rnd assignments participants exclusions))"
    by (simp add: generateClues_def assms)
  show ?thesis unfolding g by simp
qed

text \<open>
  The run of C8 on four participants, with Cyd and Dee excluded: seven clues are left,
  and all seven are returned.
\<close>

theorem generateClues_at_most_ten_witness:
  "decryptAssignments demo_runtime
      (encryptAssignments demo_runtime [gives ann cyd, gives bob dee, gives cyd bob, gives dee ann])
     = Inr (js_of_assignments [gives ann cyd, gives bob dee, gives cyd bob, gives dee ann]) \<and>
   as_assignments (js_of_assignments [gives ann cyd, gives bob dee, gives cyd bob, gives dee ann])
     = Some [gives ann cyd, gives bob dee, gives cyd bob, gives dee ann] \<and>
   (\<exists>clues.
      generateClues demo_runtime (\<lambda>k. k)
        (encryptAssignments demo_runtime [gives ann cyd, gives bob dee, gives cyd bob, gives dee ann])
        [ann, bob, cyd, dee] [excluded ''Cyd'' ''Dee''] = Inr clues \<and>
      length clues = 7 \<and>
      clues = clue_pool demo_runtime (\<lambda>k. k) [gives ann cyd, gives bob dee, gives cyd bob, gives dee ann]
                [ann, bob, cyd, dee] [excluded ''Cyd'' ''Dee''])"
proof -
  let ?A = "[gives ann cyd, gives bob dee, gives cyd bob, gives dee ann]"
  let ?pool = "clue_pool demo_runtime (\<lambda>k. k) ?A [ann, bob, cyd, dee] [excluded ''Cyd'' ''Dee'']"
  have d: "decryptAssignments demo_runtime (encryptAssignments demo_runtime ?A) = Inr (js_of_assignments ?A)"
    by (rule demo_decrypt)
  have a: "as_assignments (js_of_assignments ?A) = Some ?A" by (rule as_assignments_js)
  have "length (map clue_type ?pool) = 7" unfolding demo_pool_types by simp
  then have l: "length ?pool = 7" by simp
  from generateClues_at_most_ten[OF d a, of "\<lambda>k. k" "[ann, bob, cyd, dee]" "[excluded ''Cyd'' ''Dee'']"]
  obtain clues where c: "generateClues demo_runtime (\<lambda>k. k) (encryptAssignments demo_runtime ?A)
        [ann, bob, cyd, dee] [excluded ''Cyd'' ''Dee''] = Inr clues"
    "length ?pool < 10 \<longrightarrow> clues = ?pool" by blast
  from c(2) l have "clues = ?pool" by simp
  with c(1) l d a show ?thesis by simp
qed

text \<open>
  Claim C9. When the participants counted as male or female are at most four and at
  least one exclusion is given, no clue \<^verbatim>\<open>generateClues\<close> returns has the type
  \<^verbatim>\<open>gender\<close>, whether it comes from the generators or from the backfill.
\<close>

theorem generateClues_no_gender_clue_in_small_group:
  assumes "generateClues rt rnd token participants exclusions = Inr clues"
    and "male (analyzeParticipantDistribution participants exclusions)
         + female (analyzeParticipantDistribution participants exclusions) \<le> 4"
    and "exclusions \<noteq> []"
  shows "list_all (\<lambda>c. clue_type c \<noteq> Gender) clues"
proof -
  from assms(1) obtain v as where c: "clues = take 10 (clue_pool rt rnd as participants exclusions)"
    unfolding generateClues_def by (auto split: sum.splits option.splits)
  have e: "excludedPairsCount (analyzeParticipantDistribution participants exclusions) > 0"
    using assms(3) by (simp add: analyzeParticipantDistribution_def Let_def)
  have "clue_type x \<noteq> Gender" if x: "x \<in> set clues" for x
  proof
    assume g: "clue_type x = Gender"
    from x have "x \<in> set (clue_pool rt rnd as participants exclusions)"
      unfolding c by (rule in_set_takeD)
    from clue_pool_not_obvious[OF this] isClueObvious_gender[OF g e assms(2)]
    show False by blast
  qed
  then show ?thesis unfolding list_all_iff by blast
qed


text \<open>
  The run of C9 on two women and two men, with Cyd and Dee excluded: six year clues and
  one backup clue are returned, none about gender.
\<close>

theorem generateClues_no_gender_clue_in_small_group_witness:
  "male (analyzeParticipantDistribution [ann, bob, cyd, dee] [excluded ''Cyd'' ''Dee''])
     + female (analyzeParticipantDistribution [ann, bob, cyd, dee] [excluded ''Cyd'' ''Dee'']) = 4 \<and>
   generateClues demo_runtime (\<lambda>k. k)
        (encryptAssignments demo_runtime [gives ann cyd, gives bob dee, gives cyd bob, gives dee ann])
        [ann, bob, cyd, dee] [excluded ''Cyd'' ''Dee'']
     = Inr (take 10 (clue_pool demo_runtime (\<lambda>k. k) [gives ann cyd, gives bob dee, gives cyd bob, gives dee ann]
                [ann, bob, cyd, dee] [excluded ''Cyd'' ''Dee''])) \<and>
   list_all (\<lambda>c. clue_type c \<noteq> Gender)
     (take 10 (clue_pool demo_runtime (\<lambda>k. k) [gives ann cyd, gives bob dee, gives cyd bob, gives dee ann]
                [ann, bob, cyd, dee] [excluded ''Cyd'' ''Dee''])) \<and>
   map clue_type
     (take 10 (clue_pool demo_runtime (\<lambda>k. k) [gives ann cyd, gives bob dee, gives cyd bob, gives dee ann]
                [ann, bob, cyd, dee] [excluded ''Cyd'' ''Dee'']))
     = [Year, Year, Year, Year, Year, Year, Specific]"
proof -
  let ?A = "[gives ann cyd, gives bob dee, gives cyd bob, gives dee ann]"
  let ?pool = "clue_pool demo_runtime (\<lambda>k. k) ?A [ann, bob, cyd, dee] [excluded ''Cyd'' ''Dee'']"
  have g: "generateClues demo_runtime (\<lambda>k. k) (encryptAssignments demo_runtime ?A)
        [ann, bob, cyd, dee] [excluded ''Cyd'' ''Dee''] = Inr (take 10 ?pool)"
    by (simp add: generateClues_def demo_decrypt as_assignments_js)
  have n: "male (analyzeParticipantDistribution [ann, bob, cyd, dee] [excluded ''Cyd'' ''Dee''])
     + female (analyzeParticipantDistribution [ann, bob, cyd, dee] [excluded ''Cyd'' ''Dee'']) = 4"
    by code_simp
  then have n4: "male (analyzeParticipantDistribution [ann, bob, cyd, dee] [excluded ''Cyd'' ''Dee''])
     + female (analyzeParticipantDistribution [ann, bob, cyd, dee] [excluded ''Cyd'' ''Dee'']) \<le> 4"
    by simp
  have e: "[excluded ''Cyd'' ''Dee''] \<noteq> []" by simp
  have t: "map clue_type (take 10 ?pool) = [Year, Year, Year, Year, Year, Year, Specific]"
    unfolding take_map[symmetric] demo_pool_types by simp
  from generateClues_no_gender_clue_in_small_group[OF g n4 e] g n t
  show ?thesis by blast
qed

end
